theory Spec2Isabelle
  imports Main
begin

section \<open>The values the server computes with\<close>

text \<open>
  The server (\<^verbatim>\<open>src/server/server.js\<close>) is JavaScript running on Node. Text is modelled
  as \<^typ>\<open>string\<close>: one \<^typ>\<open>char\<close> per UTF-16 code unit, for text whose code units are
  all below 256. A file is its decoded text.

  A number is a decimal \<open>m * 10 ^ e\<close> (every IEEE double and every JSON number literal is
  one), an infinity or NaN. The model keeps the literal's exact value where the engine
  rounds to the nearest double.
\<close>

datatype jsnum = Fin int int | PosInf | NegInf | NaN

text \<open>
  What \<^verbatim>\<open>JSON.parse\<close> returns. An object is the list of its own properties in the order
  the engine enumerates them.
\<close>

datatype json =
    JNull
  | JBool bool
  | JNumber jsnum
  | JString string
  | JArray "json list"
  | JObject "(string \<times> json) list"

text \<open>A property read may give \<^verbatim>\<open>undefined\<close>, which is \<^const>\<open>None\<close>.\<close>

type_synonym jsval = "json option"

text \<open>
  The parts of the JavaScript engine the server calls. They are not code of the
  repository, so every function of the server takes the engine as a parameter.
  \<^item> \<open>JSON_parse\<close>: \<^verbatim>\<open>JSON.parse(text)\<close>; \<open>Inl\<close> carries the message of the SyntaxError thrown.
  \<^item> \<open>JSON_stringify\<close>: \<^verbatim>\<open>JSON.stringify(value)\<close>.
  \<^item> \<open>StringToNumber\<close>, \<open>NumberToString\<close>: the conversions of ECMAScript's ToNumber and
    ToString.
  \<^item> \<open>TypeError_null\<close>: the message of the TypeError thrown when a property is read from
    \<^verbatim>\<open>null\<close>, for the property's name.
  \<^item> \<open>TypeError_primitive\<close>: the message of the TypeError thrown when an object has no
    primitive value.
\<close>

record js_engine =
  JSON_parse :: "string \<Rightarrow> string + json"
  JSON_stringify :: "json \<Rightarrow> string"
  StringToNumber :: "string \<Rightarrow> jsnum"
  NumberToString :: "jsnum \<Rightarrow> string"
  TypeError_null :: "string \<Rightarrow> string"
  TypeError_primitive :: string

subsection \<open>Numbers\<close>

text \<open>\<open>x > k\<close> for a number \<open>x\<close> and a natural number \<open>k\<close>; false when \<open>x\<close> is NaN.\<close>

fun num_gt :: "jsnum \<Rightarrow> nat \<Rightarrow> bool" where
  "num_gt (Fin m e) k =
     (if 0 \<le> e then int k < m * 10 ^ nat e else int k * 10 ^ nat (- e) < m)"
| "num_gt PosInf k = True"
| "num_gt NegInf k = False"
| "num_gt NaN k = False"

text \<open>ToBoolean of a number: zero and NaN are falsy.\<close>

fun num_truthy :: "jsnum \<Rightarrow> bool" where
  "num_truthy (Fin m e) = (m \<noteq> 0)"
| "num_truthy PosInf = True"
| "num_truthy NegInf = True"
| "num_truthy NaN = False"

definition digit_char :: "nat \<Rightarrow> char" where
  "digit_char d = char_of (48 + d)"

text \<open>
  A natural number in a template literal, \<^verbatim>\<open>`${lineNumber}`\<close>: its decimal digits. (The
  engine writes digits for every integer below \<open>10 ^ 21\<close>; an upload is at most 50 MiB,
  so a line number is far below that.)
\<close>

fun show_nat :: "nat \<Rightarrow> string" where
  "show_nat n = (if n < 10 then [digit_char n] else show_nat (n div 10) @ [digit_char (n mod 10)])"

declare show_nat.simps [simp del]

definition is_digit :: "char \<Rightarrow> bool" where
  "is_digit c = (48 \<le> (of_char c :: nat) \<and> (of_char c :: nat) \<le> 57)"

definition digit_val :: "char \<Rightarrow> int" where
  "digit_val c = of_char c - 48"

definition digits_val :: "string \<Rightarrow> int" where
  "digits_val ds = foldl (\<lambda>a c. 10 * a + digit_val c) 0 ds"

definition strip_zeros :: "string \<Rightarrow> string" where
  "strip_zeros ds = rev (dropWhile (\<lambda>c. c = CHR ''0'') (rev ds))"

text \<open>
  The number a decimal literal denotes, from its sign, the digits of its integer part
  \<open>ip\<close> and of its fraction \<open>fp\<close>, and the sign and digits of its exponent. The mantissa
  has no trailing zero, and zero is \<open>Fin 0 0\<close>, so equal numbers are equal terms.
\<close>

definition mk_num :: "bool \<Rightarrow> string \<Rightarrow> string \<Rightarrow> bool \<Rightarrow> string \<Rightarrow> jsnum" where
  "mk_num neg ip fp eneg ep =
     (let ds = ip @ fp;
          ds' = strip_zeros ds;
          m = digits_val ds';
          x = (if eneg then - digits_val ep else digits_val ep)
      in if m = 0 then Fin 0 0
         else Fin (if neg then - m else m) (x - int (length fp) + int (length ds - length ds')))"

text \<open>A natural number as a JavaScript number (\<^verbatim>\<open>totalLines\<close> in a response body).\<close>

definition num_of_nat :: "nat \<Rightarrow> jsnum" where
  "num_of_nat n = mk_num False (show_nat n) [] False []"

subsection \<open>Strings\<close>

definition LF :: char where "LF = CHR 0x0A"
definition CR :: char where "CR = CHR 0x0D"
definition DQ :: char where "DQ = CHR 0x22"
definition BS :: char where "BS = CHR 0x5C"
definition SQ :: char where "SQ = CHR 0x27"

text \<open>
  The white space and line terminators that \<^verbatim>\<open>String.prototype.trim\<close> removes and that
  may surround a numeric string, among the code units below 256.
\<close>

definition str_ws :: "char \<Rightarrow> bool" where
  "str_ws c = ((of_char c :: nat) \<in> {0x09, 0x0A, 0x0B, 0x0C, 0x0D, 0x20, 0xA0})"

definition trim :: "string \<Rightarrow> string" where
  "trim s = rev (dropWhile str_ws (rev (dropWhile str_ws s)))"

text \<open>The white space of JSON: space, tab, line feed and carriage return.\<close>

definition json_ws :: "char \<Rightarrow> bool" where
  "json_ws c = (c = CHR 0x20 \<or> c = CHR 0x09 \<or> c = CHR 0x0A \<or> c = CHR 0x0D)"

text \<open>\<^verbatim>\<open>text.split('\n')\<close>: the pieces between line feeds; the empty text has one piece.\<close>

fun split_lf :: "string \<Rightarrow> string list" where
  "split_lf [] = [[]]"
| "split_lf (c # cs) =
     (if c = LF then [] # split_lf cs
      else (case split_lf cs of
              [] \<Rightarrow> [[c]]
            | l # ls \<Rightarrow> (c # l) # ls))"

subsection \<open>Objects\<close>

text \<open>
  The own properties of an ordinary object are enumerated with the array indices first
  (canonical decimal numbers below \<open>2 ^ 32 - 1\<close>), in ascending order, and then the other
  names in the order they were first set. \<open>obj_put\<close> sets one property: an object
  literal, a spread and \<^verbatim>\<open>JSON.parse\<close> build their objects with it. A property of an
  object under construction may hold \<^verbatim>\<open>undefined\<close>.
\<close>

definition is_index :: "string \<Rightarrow> bool" where
  "is_index k = (k \<noteq> [] \<and> list_all is_digit k \<and> (k = ''0'' \<or> hd k \<noteq> CHR ''0'')
     \<and> digits_val k < 4294967295)"

fun insert_index :: "string \<Rightarrow> 'v \<Rightarrow> (string \<times> 'v) list \<Rightarrow> (string \<times> 'v) list" where
  "insert_index k v [] = [(k, v)]"
| "insert_index k v ((k', v') # kvs) =
     (if is_index k' \<and> digits_val k' < digits_val k then (k', v') # insert_index k v kvs
      else (k, v) # (k', v') # kvs)"

fun replace_value :: "string \<Rightarrow> 'v \<Rightarrow> (string \<times> 'v) list \<Rightarrow> (string \<times> 'v) list" where
  "replace_value k v [] = []"
| "replace_value k v ((k', v') # kvs) =
     (if k' = k then (k, v) # kvs else (k', v') # replace_value k v kvs)"

definition obj_put :: "string \<Rightarrow> 'v \<Rightarrow> (string \<times> 'v) list \<Rightarrow> (string \<times> 'v) list" where
  "obj_put k v kvs =
     (if k \<in> set (map fst kvs) then replace_value k v kvs
      else if is_index k then insert_index k v kvs
      else kvs @ [(k, v)])"

text \<open>
  \<open>spread kvs props\<close> is \<^verbatim>\<open>{...kvs, ...props}\<close>: the properties of \<open>props\<close> set one by
  one on \<open>kvs\<close>.
\<close>

definition spread :: "(string \<times> 'v) list \<Rightarrow> (string \<times> 'v) list \<Rightarrow> (string \<times> 'v) list" where
  "spread kvs props = foldl (\<lambda>acc (k, v). obj_put k v acc) kvs props"

text \<open>
  What \<^verbatim>\<open>JSON.stringify\<close> and \<^verbatim>\<open>res.json\<close> keep of an object: the properties that are not
  \<^verbatim>\<open>undefined\<close>.
\<close>

fun defined_props :: "(string \<times> jsval) list \<Rightarrow> (string \<times> json) list" where
  "defined_props [] = []"
| "defined_props ((k, None) # kvs) = defined_props kvs"
| "defined_props ((k, Some v) # kvs) = (k, v) # defined_props kvs"

subsection \<open>Truthiness, typeof, property reads\<close>

text \<open>ToBoolean: what \<^verbatim>\<open>!v\<close> and \<^verbatim>\<open>v && ...\<close> test.\<close>

fun truthy :: "jsval \<Rightarrow> bool" where
  "truthy None = False"
| "truthy (Some JNull) = False"
| "truthy (Some (JBool b)) = b"
| "truthy (Some (JNumber x)) = num_truthy x"
| "truthy (Some (JString s)) = (s \<noteq> [])"
| "truthy (Some (JArray xs)) = True"
| "truthy (Some (JObject kvs)) = True"

text \<open>\<^verbatim>\<open>typeof v === 'string'\<close>.\<close>

fun is_string :: "jsval \<Rightarrow> bool" where
  "is_string (Some (JString s)) = True"
| "is_string v = False"

text \<open>
  \<^verbatim>\<open>parsed.prompt\<close> and \<^verbatim>\<open>parsed.completion\<close> on a value that is not null: an object gives
  its own property of that name or \<^verbatim>\<open>undefined\<close>; a number, a boolean, a string and an
  array have no property of either name (nor has any prototype), so they give
  \<^verbatim>\<open>undefined\<close>. Reading a property of \<^verbatim>\<open>null\<close> throws; the caller handles that case.
\<close>

fun get_field :: "json \<Rightarrow> string \<Rightarrow> jsval" where
  "get_field (JObject kvs) k = map_of kvs k"
| "get_field v k = None"

subsection \<open>Conversion of a parsed value to a string and to a number\<close>

text \<open>
  An exception is \<open>Inl\<close> of its message. \<open>sequence_results\<close> evaluates left to right and
  stops at the first exception.
\<close>

fun sequence_results :: "(string + 'a) list \<Rightarrow> string + 'a list" where
  "sequence_results [] = Inr []"
| "sequence_results (Inl e # rs) = Inl e"
| "sequence_results (Inr x # rs) =
     (case sequence_results rs of Inl e \<Rightarrow> Inl e | Inr xs \<Rightarrow> Inr (x # xs))"

fun join_comma :: "string list \<Rightarrow> string" where
  "join_comma [] = []"
| "join_comma [s] = s"
| "join_comma (s # t # ss) = s @ '','' @ join_comma (t # ss)"

text \<open>
  ToString of a parsed value. An array is \<^verbatim>\<open>Array.prototype.join\<close> with a comma, in which
  null is the empty string. An object parsed from JSON inherits
  \<^verbatim>\<open>Object.prototype.toString\<close>, which gives \<^verbatim>\<open>[object Object]\<close>, unless it has an own
  property \<^verbatim>\<open>toString\<close>: that property is a parsed value, so it is not callable, and
  neither it nor \<^verbatim>\<open>valueOf\<close> (own and not callable, or inherited and returning the object)
  gives a primitive, so the conversion throws a TypeError.
\<close>

fun ToString :: "js_engine \<Rightarrow> json \<Rightarrow> string + string"
  and join_element :: "js_engine \<Rightarrow> json \<Rightarrow> string + string" where
  "ToString E JNull = Inr ''null''"
| "ToString E (JBool b) = Inr (if b then ''true'' else ''false'')"
| "ToString E (JNumber x) = Inr (NumberToString E x)"
| "ToString E (JString s) = Inr s"
| "ToString E (JArray xs) =
     (case sequence_results (map (join_element E) xs) of
        Inl e \<Rightarrow> Inl e
      | Inr ss \<Rightarrow> Inr (join_comma ss))"
| "ToString E (JObject kvs) =
     (if ''toString'' \<in> set (map fst kvs) then Inl (TypeError_primitive E)
      else Inr ''[object Object]'')"
| "join_element E JNull = Inr []"
| "join_element E (JBool b) = ToString E (JBool b)"
| "join_element E (JNumber x) = ToString E (JNumber x)"
| "join_element E (JString s) = ToString E (JString s)"
| "join_element E (JArray xs) = ToString E (JArray xs)"
| "join_element E (JObject kvs) = ToString E (JObject kvs)"

text \<open>
  ToNumber of a parsed value: null is 0, a boolean 0 or 1, a string is converted, and an
  array or an object is first converted to a string (with the hint "number",
  \<^verbatim>\<open>valueOf\<close> is tried first, and gives no primitive).
\<close>

fun ToNumber :: "js_engine \<Rightarrow> json \<Rightarrow> string + jsnum" where
  "ToNumber E JNull = Inr (Fin 0 0)"
| "ToNumber E (JBool b) = Inr (if b then Fin 1 0 else Fin 0 0)"
| "ToNumber E (JNumber x) = Inr x"
| "ToNumber E (JString s) = Inr (StringToNumber E s)"
| "ToNumber E v = (case ToString E v of Inl e \<Rightarrow> Inl e | Inr s \<Rightarrow> Inr (StringToNumber E s))"

text \<open>
  \<^verbatim>\<open>v.length > 4096\<close> for a truthy \<open>v\<close>. A string and an array have a length; an object
  has its own property \<^verbatim>\<open>length\<close> if any, which is converted to a number; everything else
  gives \<^verbatim>\<open>undefined\<close>, which is NaN as a number, and every comparison with NaN is false.
\<close>

fun length_exceeds :: "js_engine \<Rightarrow> json \<Rightarrow> nat \<Rightarrow> string + bool" where
  "length_exceeds E (JString s) k = Inr (k < length s)"
| "length_exceeds E (JArray xs) k = Inr (k < length xs)"
| "length_exceeds E (JObject kvs) k =
     (case map_of kvs ''length'' of
        None \<Rightarrow> Inr False
      | Some l \<Rightarrow> (case ToNumber E l of Inl e \<Rightarrow> Inl e | Inr x \<Rightarrow> Inr (num_gt x k)))"
| "length_exceeds E v k = Inr False"

text \<open>\<^verbatim>\<open>v && v.length > 4096\<close>, as a condition.\<close>

definition too_long :: "js_engine \<Rightarrow> jsval \<Rightarrow> string + bool" where
  "too_long E v = (case v of None \<Rightarrow> Inr False
     | Some x \<Rightarrow> if truthy v then length_exceeds E x 4096 else Inr False)"

section \<open>Reading a file line by line\<close>

text \<open>
  \<^verbatim>\<open>readline.createInterface({input, crlfDelay: Infinity})\<close>, iterated with
  \<^verbatim>\<open>for await\<close>: a line ends at LF, at CR LF or at a CR that no LF follows; the text after
  the last line end is a line of its own when it is not empty. \<open>buf\<close> is the line read so
  far.
\<close>

fun readline_from :: "string \<Rightarrow> string \<Rightarrow> string list" where
  "readline_from buf [] = (if buf = [] then [] else [buf])"
| "readline_from buf (c # cs) =
     (if c = LF then buf # readline_from [] cs
      else if c = CR then
        (case cs of
           [] \<Rightarrow> [buf]
         | d # ds \<Rightarrow> if d = LF then buf # readline_from [] ds else buf # readline_from [] cs)
      else readline_from (buf @ [c]) cs)"

definition readline_lines :: "string \<Rightarrow> string list" where
  "readline_lines content = readline_from [] content"

section \<open>validateJSONL\<close>

record ValidationRecord =
  isValid :: bool
  errors :: "string list"
  totalLines :: nat

definition line_tag :: "nat \<Rightarrow> string" where
  "line_tag lineNumber = ''Line '' @ show_nat lineNumber @ '': ''"

definition msg_prompt :: "nat \<Rightarrow> string" where
  "msg_prompt n = line_tag n @ ''Missing or invalid 'prompt' field''"

definition msg_completion :: "nat \<Rightarrow> string" where
  "msg_completion n = line_tag n @ ''Missing or invalid 'completion' field''"

definition msg_prompt_long :: "nat \<Rightarrow> string" where
  "msg_prompt_long n = line_tag n @ ''Prompt exceeds maximum length of 4096 characters''"

definition msg_completion_long :: "nat \<Rightarrow> string" where
  "msg_completion_long n = line_tag n @ ''Completion exceeds maximum length of 4096 characters''"

definition msg_invalid :: "nat \<Rightarrow> string \<Rightarrow> string" where
  "msg_invalid n message = line_tag n @ ''Invalid JSON format - '' @ message"

text \<open>
  The statements of the \<^verbatim>\<open>try\<close> block after \<^verbatim>\<open>JSON.parse\<close> (lines 79 to 93), on the parsed
  value. The result is the errors array after the block and the message of the exception
  that ended it, if one did. Reading \<^verbatim>\<open>parsed.prompt\<close> throws when \<^verbatim>\<open>parsed\<close> is null,
  before anything is pushed; a length comparison can throw after the pushes before it.
\<close>

definition field_checks ::
  "js_engine \<Rightarrow> nat \<Rightarrow> json \<Rightarrow> string list \<Rightarrow> string list \<times> string option" where
  "field_checks E lineNumber parsed errs =
     (if parsed = JNull then (errs, Some (TypeError_null E ''prompt''))
      else
        let prompt = get_field parsed ''prompt'';
            completion = get_field parsed ''completion'';
            errs1 = (if \<not> truthy prompt \<or> \<not> is_string prompt
                     then errs @ [msg_prompt lineNumber] else errs);
            errs2 = (if \<not> truthy completion \<or> \<not> is_string completion
                     then errs1 @ [msg_completion lineNumber] else errs1)
        in (case too_long E prompt of
              Inl e \<Rightarrow> (errs2, Some e)
            | Inr long1 \<Rightarrow>
                (let errs3 = (if long1 then errs2 @ [msg_prompt_long lineNumber] else errs2)
                 in (case too_long E completion of
                       Inl e \<Rightarrow> (errs3, Some e)
                     | Inr long2 \<Rightarrow>
                         (if long2 then errs3 @ [msg_completion_long lineNumber] else errs3,
                          None)))))"

text \<open>
  One pass of the loop body after \<^verbatim>\<open>lineNumber++\<close>: the \<^verbatim>\<open>try\<close> block and its
  \<^verbatim>\<open>catch\<close>, which pushes one more entry with the message of whatever was thrown.
\<close>

definition validate_line :: "js_engine \<Rightarrow> nat \<Rightarrow> string \<Rightarrow> string list \<Rightarrow> string list" where
  "validate_line E lineNumber line errs =
     (case JSON_parse E line of
        Inl message \<Rightarrow> errs @ [msg_invalid lineNumber message]
      | Inr parsed \<Rightarrow>
          (case field_checks E lineNumber parsed errs of
             (errs', None) \<Rightarrow> errs'
           | (errs', Some message) \<Rightarrow> errs' @ [msg_invalid lineNumber message]))"

text \<open>The loop over the lines, with the counter and the errors array as its state.\<close>

fun validate_loop :: "js_engine \<Rightarrow> string list \<Rightarrow> nat \<Rightarrow> string list \<Rightarrow> nat \<times> string list" where
  "validate_loop E [] lineNumber errs = (lineNumber, errs)"
| "validate_loop E (line # rest) lineNumber errs =
     validate_loop E rest (lineNumber + 1) (validate_line E (lineNumber + 1) line errs)"

text \<open>\<open>content\<close> is the text of the file at \<^verbatim>\<open>filePath\<close>.\<close>

definition validateJSONL :: "js_engine \<Rightarrow> string \<Rightarrow> ValidationRecord" where
  "validateJSONL E content =
     (case validate_loop E (readline_lines content) 0 [] of
        (lineNumber, errs) \<Rightarrow>
          \<lparr>isValid = (length errs = 0), errors = errs, totalLines = lineNumber\<rparr>)"

section \<open>The request handlers\<close>

subsection \<open>The world outside a handler\<close>

text \<open>
  A handler reads and writes the file system and calls the upstream API. The world is
  the files (a path to the text of the file there) and the upstream calls made so far.
  A stream handed to the SDK is named by the path it was opened on. What the upstream
  answers is a parameter: \<open>Inl\<close> is the message of the error the SDK throws, \<open>Inr\<close> the
  properties of the object it returns.
\<close>

datatype api_call =
    FilesCreate string string
  | ImagesGenerate "(string \<times> json) list"
  | ImagesEdit string "string option" string
  | ImagesCreateVariation string

record world =
  files :: "string \<rightharpoonup> string"
  api_calls :: "api_call list"

type_synonym upstream = "api_call \<Rightarrow> string + (string \<times> json) list"

definition existsSync :: "string \<Rightarrow> world \<Rightarrow> bool" where
  "existsSync p w = (files w p \<noteq> None)"

definition enoent :: "string \<Rightarrow> string \<Rightarrow> string" where
  "enoent syscall p =
     ''ENOENT: no such file or directory, '' @ syscall @ '' '' @ [SQ] @ p @ [SQ]"

text \<open>\<^verbatim>\<open>fs.unlinkSync(p)\<close> throws when there is no file at \<open>p\<close>.\<close>

definition unlinkSync :: "string \<Rightarrow> world \<Rightarrow> string + world" where
  "unlinkSync p w =
     (if existsSync p w then Inr (w\<lparr>files := (files w)(p := None)\<rparr>)
      else Inl (enoent ''unlink'' p))"

text \<open>Opening a file to read it, as \<^verbatim>\<open>validateJSONL\<close> and \<^verbatim>\<open>fs.readFileSync\<close> do.\<close>

definition readFile :: "string \<Rightarrow> world \<Rightarrow> string + string" where
  "readFile p w = (case files w p of None \<Rightarrow> Inl (enoent ''open'' p) | Some content \<Rightarrow> Inr content)"

text \<open>
  \<^verbatim>\<open>validateJSONL(filePath)\<close> on the file system: the stream is opened on the file at
  \<open>filePath\<close> and the loop reads its text. With no file there, the stream fails with the
  error of the open; the readline interface passes the error on, the \<^verbatim>\<open>for await\<close> loop
  throws it outside the \<^verbatim>\<open>try\<close> block, and the promise of the function is rejected with
  it: \<open>Inl\<close> of its message.
\<close>

definition validateJSONL_at :: "js_engine \<Rightarrow> string \<Rightarrow> world \<Rightarrow> string + ValidationRecord" where
  "validateJSONL_at E filePath w =
     (case readFile filePath w of
        Inl e \<Rightarrow> Inl e
      | Inr content \<Rightarrow> Inr (validateJSONL E content))"

text \<open>\<^verbatim>\<open>fs.appendFileSync(p, data)\<close> creates the file when it is absent.\<close>

definition appendFileSync :: "string \<Rightarrow> string \<Rightarrow> world \<Rightarrow> world" where
  "appendFileSync p data w =
     w\<lparr>files := (files w)(p \<mapsto> (case files w p of None \<Rightarrow> data | Some old \<Rightarrow> old @ data))\<rparr>"

definition call_upstream ::
  "upstream \<Rightarrow> api_call \<Rightarrow> world \<Rightarrow> world \<times> (string + (string \<times> json) list)" where
  "call_upstream openai c w = (w\<lparr>api_calls := api_calls w @ [c]\<rparr>, openai c)"

text \<open>
  What multer leaves of an uploaded file: where it stored it and under which name.
  A response is its status and the value given to \<^verbatim>\<open>res.json\<close>.
\<close>

record upload_file =
  path :: string
  filename :: string

record response =
  status :: nat
  body :: json

definition error_body :: "string \<Rightarrow> json" where
  "error_body e = JObject [(''error'', JString e)]"

text \<open>
  The clean-up at the head of a \<^verbatim>\<open>catch\<close> block:
  \<^verbatim>\<open>if (req.file && fs.existsSync(req.file.path)) fs.unlinkSync(req.file.path)\<close>.
  The file is there when it is unlinked, so the unlink does not throw.
\<close>

definition cleanup :: "string \<Rightarrow> world \<Rightarrow> world" where
  "cleanup p w =
     (if existsSync p w then (case unlinkSync p w of Inl e \<Rightarrow> w | Inr w' \<Rightarrow> w') else w)"

subsection \<open>POST /api/validate-jsonl (lines 121 to 153)\<close>

text \<open>The \<^verbatim>\<open>try\<close> block once a file is there; \<open>Inl\<close> is the message of what it threw.\<close>

definition validate_jsonl_try ::
  "js_engine \<Rightarrow> upload_file \<Rightarrow> world \<Rightarrow> world \<times> (string + response)" where
  "validate_jsonl_try E f w =
     (case readFile (path f) w of
        Inl e \<Rightarrow> (w, Inl e)
      | Inr content \<Rightarrow>
          (let validationResult = validateJSONL E content
           in case unlinkSync (path f) w of
                Inl e \<Rightarrow> (w, Inl e)
              | Inr w' \<Rightarrow>
                  if \<not> isValid validationResult then
                    (w', Inr \<lparr>status = 400, body = JObject
                       [(''error'', JString ''Invalid JSONL format''),
                        (''details'', JArray (map JString (errors validationResult))),
                        (''totalLines'', JNumber (num_of_nat (totalLines validationResult)))]\<rparr>)
                  else
                    (w', Inr \<lparr>status = 200, body = JObject
                       [(''message'', JString ''File validation successful''),
                        (''totalLines'', JNumber (num_of_nat (totalLines validationResult)))]\<rparr>)))"

definition validate_jsonl_handler ::
  "js_engine \<Rightarrow> upload_file option \<Rightarrow> world \<Rightarrow> world \<times> response" where
  "validate_jsonl_handler E req_file w =
     (case req_file of
        None \<Rightarrow> (w, \<lparr>status = 400, body = error_body ''No file uploaded''\<rparr>)
      | Some f \<Rightarrow>
          (case validate_jsonl_try E f w of
             (w', Inr res) \<Rightarrow> (w', res)
           | (w', Inl message) \<Rightarrow>
               (cleanup (path f) w',
                \<lparr>status = 500, body = JObject
                   [(''error'', JString ''Validation failed''),
                    (''message'', JString message)]\<rparr>)))"

subsection \<open>POST /api/upload (lines 156 to 203)\<close>

text \<open>
  \<open>purpose\<close> is \<^verbatim>\<open>req.body.purpose\<close>, a text field of the form or \<^verbatim>\<open>undefined\<close>;
  \<^verbatim>\<open>req.body.purpose || 'fine-tune'\<close> replaces \<^verbatim>\<open>undefined\<close> and the empty string.
\<close>

definition purpose_or_default :: "string option \<Rightarrow> string" where
  "purpose_or_default purpose =
     (case purpose of None \<Rightarrow> ''fine-tune'' | Some p \<Rightarrow> if p = [] then ''fine-tune'' else p)"

definition upload_try ::
  "js_engine \<Rightarrow> upstream \<Rightarrow> upload_file \<Rightarrow> string option \<Rightarrow> world \<Rightarrow> world \<times> (string + response)" where
  "upload_try E openai f purpose w =
     (case readFile (path f) w of
        Inl e \<Rightarrow> (w, Inl e)
      | Inr content \<Rightarrow>
          (let validationResult = validateJSONL E content
           in if \<not> isValid validationResult then
                (case unlinkSync (path f) w of
                   Inl e \<Rightarrow> (w, Inl e)
                 | Inr w' \<Rightarrow>
                     (w', Inr \<lparr>status = 400, body = JObject
                        [(''error'', JString ''Invalid JSONL format''),
                         (''details'', JArray (map JString (errors validationResult)))]\<rparr>))
              else
                (case call_upstream openai (FilesCreate (path f) (purpose_or_default purpose)) w of
                   (w1, Inl e) \<Rightarrow> (w1, Inl e)
                 | (w1, Inr file) \<Rightarrow>
                     (case unlinkSync (path f) w1 of
                        Inl e \<Rightarrow> (w1, Inl e)
                      | Inr w2 \<Rightarrow>
                          (w2, Inr \<lparr>status = 200, body = JObject
                             [(''message'', JString ''File uploaded successfully''),
                              (''file'', JObject (defined_props
                                 [(''id'', map_of file ''id''),
                                  (''purpose'', map_of file ''purpose''),
                                  (''filename'', map_of file ''filename''),
                                  (''bytes'', map_of file ''bytes''),
                                  (''created_at'', map_of file ''created_at''),
                                  (''status'', map_of file ''status''),
                                  (''totalLines'',
                                   Some (JNumber (num_of_nat (totalLines validationResult))))]))]\<rparr>)))))"

definition upload_handler ::
  "js_engine \<Rightarrow> upstream \<Rightarrow> upload_file option \<Rightarrow> string option \<Rightarrow> world \<Rightarrow> world \<times> response" where
  "upload_handler E openai req_file purpose w =
     (case req_file of
        None \<Rightarrow> (w, \<lparr>status = 400, body = error_body ''No file uploaded''\<rparr>)
      | Some f \<Rightarrow>
          (case upload_try E openai f purpose w of
             (w', Inr res) \<Rightarrow> (w', res)
           | (w', Inl message) \<Rightarrow>
               (cleanup (path f) w',
                \<lparr>status = 500, body = JObject
                   [(''error'', JString ''Failed to upload file''),
                    (''message'', JString message)]\<rparr>)))"

subsection \<open>The category logs\<close>

text \<open>
  \<^verbatim>\<open>path.join(__dirname, name)\<close> for the three logs: each is a fixed path in the server's
  directory.
\<close>

definition imageLogPath :: string where "imageLogPath = ''image_generations.jsonl''"
definition editLogPath :: string where "editLogPath = ''image_edits.jsonl''"
definition variationLogPath :: string where "variationLogPath = ''image_variations.jsonl''"

text \<open>\<^verbatim>\<open>fs.appendFileSync(logPath, JSON.stringify(entry) + '\n')\<close> (lines 346, 420, 462).\<close>

definition append_entry :: "js_engine \<Rightarrow> string \<Rightarrow> json \<Rightarrow> world \<Rightarrow> world" where
  "append_entry E logPath entry w = appendFileSync logPath (JSON_stringify E entry @ [LF]) w"

text \<open>
  The chain \<^verbatim>\<open>.split('\n').filter(line => line.trim()).map(line => JSON.parse(line)).reverse()\<close>
  on the text of a log. \<^verbatim>\<open>map\<close> parses the lines in order, and the first line that does
  not parse throws.
\<close>

definition parse_log :: "js_engine \<Rightarrow> string \<Rightarrow> string + json list" where
  "parse_log E content =
     (case sequence_results (map (JSON_parse E) (filter (\<lambda>line. trim line \<noteq> []) (split_lf content))) of
        Inl e \<Rightarrow> Inl e
      | Inr entries \<Rightarrow> Inr (rev entries))"

text \<open>
  The three listing handlers (lines 359 to 381, 540 to 562, 565 to 587) differ in the
  path, in the name of the property that holds the entries and in the error text.
\<close>

definition list_log :: "js_engine \<Rightarrow> string \<Rightarrow> string \<Rightarrow> string \<Rightarrow> world \<Rightarrow> response" where
  "list_log E logPath key failure w =
     (if \<not> existsSync logPath w then \<lparr>status = 200, body = JObject [(key, JArray [])]\<rparr>
      else
        (case readFile logPath w of
           Inl e \<Rightarrow> \<lparr>status = 500, body = JObject
             [(''error'', JString failure), (''details'', JString e)]\<rparr>
         | Inr content \<Rightarrow>
             (case parse_log E content of
                Inl e \<Rightarrow> \<lparr>status = 500, body = JObject
                  [(''error'', JString failure), (''details'', JString e)]\<rparr>
              | Inr entries \<Rightarrow> \<lparr>status = 200, body = JObject [(key, JArray entries)]\<rparr>)))"

definition get_images :: "js_engine \<Rightarrow> world \<Rightarrow> response" where
  "get_images E w = list_log E imageLogPath ''images'' ''Failed to fetch images'' w"

definition get_image_edits :: "js_engine \<Rightarrow> world \<Rightarrow> response" where
  "get_image_edits E w = list_log E editLogPath ''edits'' ''Failed to fetch image edits'' w"

definition get_image_variations :: "js_engine \<Rightarrow> world \<Rightarrow> response" where
  "get_image_variations E w =
     list_log E variationLogPath ''variations'' ''Failed to fetch variations'' w"

subsection \<open>POST /api/generate-image (lines 321 to 356)\<close>

text \<open>
  The body is parsed JSON, so each field is a parsed value or \<^verbatim>\<open>undefined\<close>; a default
  of the destructuring replaces \<^verbatim>\<open>undefined\<close> only. \<open>now\<close> is
  \<^verbatim>\<open>new Date().toISOString()\<close>.
\<close>

record generate_request =
  g_prompt :: jsval
  g_model :: jsval
  g_size :: jsval
  g_quality :: jsval
  g_n :: jsval

definition or_default :: "jsval \<Rightarrow> json \<Rightarrow> jsval" where
  "or_default v d = (case v of None \<Rightarrow> Some d | Some x \<Rightarrow> Some x)"

definition generate_image_handler ::
  "js_engine \<Rightarrow> upstream \<Rightarrow> string \<Rightarrow> generate_request \<Rightarrow> world \<Rightarrow> world \<times> response" where
  "generate_image_handler E openai now req w =
     (if \<not> truthy (g_prompt req) then
        (w, \<lparr>status = 400, body = error_body ''Prompt is required''\<rparr>)
      else
        (case call_upstream openai (ImagesGenerate (defined_props
                [(''model'', or_default (g_model req) (JString ''dall-e-3'')),
                 (''prompt'', g_prompt req),
                 (''n'', or_default (g_n req) (JNumber (Fin 1 0))),
                 (''size'', or_default (g_size req) (JString ''1024x1024'')),
                 (''quality'', or_default (g_quality req) (JString ''standard'')),
                 (''response_format'', Some (JString ''url''))])) w of
           (w1, Inl e) \<Rightarrow>
             (w1, \<lparr>status = 500, body = JObject
                [(''error'', JString ''Failed to generate image''), (''details'', JString e)]\<rparr>)
         | (w1, Inr res) \<Rightarrow>
             (let imageData = JObject (defined_props
                    (spread [(''timestamp'', Some (JString now)), (''prompt'', g_prompt req)]
                       (map (\<lambda>(k, v). (k, Some v)) res)))
              in (append_entry E imageLogPath imageData w1,
                  \<lparr>status = 200, body = JObject res\<rparr>))))"

subsection \<open>POST /api/edit-image (lines 384 to 436)\<close>

text \<open>
  \<open>e_prompt\<close> is the text field \<^verbatim>\<open>prompt\<close> of the form or \<^verbatim>\<open>undefined\<close>;
  \<open>e_image\<close> and \<open>e_mask\<close> are the files multer stored before the handler ran.
\<close>

record edit_request =
  e_prompt :: "string option"
  e_image :: "upload_file option"
  e_mask :: "upload_file option"

text \<open>
  The \<^verbatim>\<open>try\<close> block once the prompt and the image are there. The entry is
  \<^verbatim>\<open>{timestamp, prompt, originalImage, mask, ...response}\<close>.
\<close>

definition edit_image_try ::
  "js_engine \<Rightarrow> upstream \<Rightarrow> string \<Rightarrow> string \<Rightarrow> upload_file \<Rightarrow> upload_file option \<Rightarrow> world
     \<Rightarrow> world \<times> (string + response)" where
  "edit_image_try E openai now prompt image_file mask_file w =
     (case call_upstream openai (ImagesEdit (path image_file) (map_option path mask_file) prompt) w of
        (w1, Inl e) \<Rightarrow> (w1, Inl e)
      | (w1, Inr res) \<Rightarrow>
          (let editData = JObject (defined_props
                 (spread [(''timestamp'', Some (JString now)),
                          (''prompt'', Some (JString prompt)),
                          (''originalImage'', Some (JString (filename image_file))),
                          (''mask'', map_option (\<lambda>m. JString (filename m)) mask_file)]
                    (map (\<lambda>(k, v). (k, Some v)) res)));
               w2 = append_entry E editLogPath editData w1
           in case unlinkSync (path image_file) w2 of
                Inl e \<Rightarrow> (w2, Inl e)
              | Inr w3 \<Rightarrow>
                  (case mask_file of
                     None \<Rightarrow> (w3, Inr \<lparr>status = 200, body = JObject res\<rparr>)
                   | Some m \<Rightarrow>
                       (case unlinkSync (path m) w3 of
                          Inl e \<Rightarrow> (w3, Inl e)
                        | Inr w4 \<Rightarrow> (w4, Inr \<lparr>status = 200, body = JObject res\<rparr>)))))"

text \<open>The handler; its \<^verbatim>\<open>catch\<close> block (lines 429 to 435) only answers.\<close>

definition edit_image_handler ::
  "js_engine \<Rightarrow> upstream \<Rightarrow> string \<Rightarrow> edit_request \<Rightarrow> world \<Rightarrow> world \<times> response" where
  "edit_image_handler E openai now req w =
     (case e_prompt req of
        None \<Rightarrow> (w, \<lparr>status = 400, body = error_body ''Prompt is required''\<rparr>)
      | Some prompt \<Rightarrow>
          if prompt = [] then (w, \<lparr>status = 400, body = error_body ''Prompt is required''\<rparr>)
          else
            (case e_image req of
               None \<Rightarrow> (w, \<lparr>status = 400, body = error_body ''Image is required''\<rparr>)
             | Some image_file \<Rightarrow>
                 (case edit_image_try E openai now prompt image_file (e_mask req) w of
                    (w', Inr res) \<Rightarrow> (w', res)
                  | (w', Inl message) \<Rightarrow>
                      (w', \<lparr>status = 500, body = JObject
                         [(''error'', JString ''Failed to edit image''),
                          (''details'', JString message)]\<rparr>))))"

subsection \<open>POST /api/image-variations (lines 439 to 475)\<close>

text \<open>
  The \<^verbatim>\<open>try\<close> block once the image is there. The entry is
  \<^verbatim>\<open>{timestamp, originalImage, ...response}\<close>.
\<close>

definition image_variations_try ::
  "js_engine \<Rightarrow> upstream \<Rightarrow> string \<Rightarrow> upload_file \<Rightarrow> world \<Rightarrow> world \<times> (string + response)" where
  "image_variations_try E openai now f w =
     (case call_upstream openai (ImagesCreateVariation (path f)) w of
        (w1, Inl e) \<Rightarrow> (w1, Inl e)
      | (w1, Inr res) \<Rightarrow>
          (let variationData = JObject (defined_props
                 (spread [(''timestamp'', Some (JString now)),
                          (''originalImage'', Some (JString (filename f)))]
                    (map (\<lambda>(k, v). (k, Some v)) res)));
               w2 = append_entry E variationLogPath variationData w1
           in case unlinkSync (path f) w2 of
                Inl e \<Rightarrow> (w2, Inl e)
              | Inr w3 \<Rightarrow> (w3, Inr \<lparr>status = 200, body = JObject res\<rparr>)))"

text \<open>The handler; its \<^verbatim>\<open>catch\<close> block (lines 468 to 474) only answers.\<close>

definition image_variations_handler ::
  "js_engine \<Rightarrow> upstream \<Rightarrow> string \<Rightarrow> upload_file option \<Rightarrow> world \<Rightarrow> world \<times> response" where
  "image_variations_handler E openai now req_file w =
     (case req_file of
        None \<Rightarrow> (w, \<lparr>status = 400, body = error_body ''Image is required''\<rparr>)
      | Some f \<Rightarrow>
          (case image_variations_try E openai now f w of
             (w', Inr res) \<Rightarrow> (w', res)
           | (w', Inl message) \<Rightarrow>
               (w', \<lparr>status = 500, body = JObject
                  [(''error'', JString ''Failed to generate variations''),
                   (''details'', JString message)]\<rparr>)))"

section \<open>What the specification says of a line\<close>

text \<open>
  The errors one line adds are \<open>line_errors\<close>. \<open>spec_line_valid\<close> is the specification's
  condition for a valid line, in its words: the line parses, and both fields are present,
  are strings and have at most 4096 characters. \<open>line_accepted\<close> is the condition the
  validator applies: both fields are strings that are not empty and have at most 4096
  characters. A line is \<open>blank\<close> when it is empty or holds only the white space of JSON.
\<close>

fun field_ok :: "jsval \<Rightarrow> bool" where
  "field_ok (Some (JString s)) = (s \<noteq> [] \<and> length s \<le> 4096)"
| "field_ok v = False"

definition line_accepted :: "js_engine \<Rightarrow> string \<Rightarrow> bool" where
  "line_accepted E line =
     (case JSON_parse E line of
        Inl message \<Rightarrow> False
      | Inr parsed \<Rightarrow>
          field_ok (get_field parsed ''prompt'')
          \<and> field_ok (get_field parsed ''completion''))"

definition line_errors :: "js_engine \<Rightarrow> nat \<Rightarrow> string \<Rightarrow> string list" where
  "line_errors E n line = validate_line E n line []"

fun spec_field_ok :: "jsval \<Rightarrow> bool" where
  "spec_field_ok (Some (JString s)) = (length s \<le> 4096)"
| "spec_field_ok v = False"

definition spec_line_valid :: "js_engine \<Rightarrow> string \<Rightarrow> bool" where
  "spec_line_valid E line =
     (case JSON_parse E line of
        Inl message \<Rightarrow> False
      | Inr parsed \<Rightarrow>
          spec_field_ok (get_field parsed ''prompt'')
          \<and> spec_field_ok (get_field parsed ''completion''))"

definition blank :: "string \<Rightarrow> bool" where
  "blank line = list_all json_ws line"

text \<open>
  The length condition on a field, value by value: a string over 4096 characters, an
  array of more than 4096 elements, or an object whose own property \<^verbatim>\<open>length\<close> converts
  to a number above 4096. \<open>length_throws\<close> says that this conversion throws.
\<close>

fun long_field :: "js_engine \<Rightarrow> jsval \<Rightarrow> bool" where
  "long_field E (Some (JString s)) = (4096 < length s)"
| "long_field E (Some (JArray xs)) = (4096 < length xs)"
| "long_field E (Some (JObject kvs)) =
     (case map_of kvs ''length'' of
        None \<Rightarrow> False
      | Some l \<Rightarrow> (case ToNumber E l of Inl e \<Rightarrow> False | Inr x \<Rightarrow> num_gt x 4096))"
| "long_field E v = False"

fun length_throws :: "js_engine \<Rightarrow> jsval \<Rightarrow> bool" where
  "length_throws E (Some (JObject kvs)) =
     (case map_of kvs ''length'' of
        None \<Rightarrow> False
      | Some l \<Rightarrow> (case ToNumber E l of Inl e \<Rightarrow> True | Inr x \<Rightarrow> False))"
| "length_throws E v = False"

text \<open>
  The line ends of a text: a line feed, together with the carriage return before it when
  there is one, and a carriage return that no line feed follows. \<open>line_ends\<close> counts
  them, and \<open>partial_line\<close> says that text follows the last of them (or that the text has
  none and is not empty). \<open>from_line n\<close> holds of the error entries that begin with
  \<^verbatim>\<open>Line n:\<close>.
\<close>

fun line_ends :: "string \<Rightarrow> nat" where
  "line_ends [] = 0"
| "line_ends [c] = (if c = LF \<or> c = CR then 1 else 0)"
| "line_ends (c # d # cs) =
     (if c = LF \<or> (c = CR \<and> d \<noteq> LF) then 1 else 0) + line_ends (d # cs)"

definition partial_line :: "string \<Rightarrow> bool" where
  "partial_line content = (content \<noteq> [] \<and> last content \<noteq> LF \<and> last content \<noteq> CR)"

definition from_line :: "nat \<Rightarrow> string \<Rightarrow> bool" where
  "from_line n e = (take (length (line_tag n)) e = line_tag n)"

text \<open>
  The entries \<open>es\<close> appended to the log at \<open>logPath\<close> one after the other, each by the
  append of the handlers.
\<close>

definition append_all :: "js_engine \<Rightarrow> string \<Rightarrow> json list \<Rightarrow> world \<Rightarrow> world" where
  "append_all E logPath es w = foldl (\<lambda>w' entry. append_entry E logPath entry w') w es"

text \<open>
  A character that stands for itself in a JSON string, and the line of an example with
  the prompt \<open>p\<close> and the completion \<open>c\<close>.
\<close>

definition plain :: "char \<Rightarrow> bool" where
  "plain c = (c \<noteq> DQ \<and> c \<noteq> BS \<and> \<not> (of_char c :: nat) < 32)"

definition prompt_completion_line :: "string \<Rightarrow> string \<Rightarrow> string" where
  \<open>prompt_completion_line p c = ''{"prompt":"'' @ p @ ''","completion":"'' @ c @ ''"}''\<close>

section \<open>A model of the engine: Node 18\<close>

text \<open>
  The general theorems below hold for every engine. To run the server on a concrete
  file, this section gives one engine: \<^verbatim>\<open>JSON.parse\<close> and \<^verbatim>\<open>JSON.stringify\<close> after
  ECMA-404 and ECMA-262, with the messages V8 gives in Node 18. A string escape with four
  hexadecimal digits for a code unit of 256 or more is outside the alphabet of the model
  and is refused.
\<close>

subsection \<open>Number literals\<close>

text \<open>
  A scanner returns \<open>Inr\<close> of what it read and the rest of the text, or \<open>Inl\<close> of the
  text from the character it cannot accept (empty at the end of the text).
\<close>

definition scan_digits :: "string \<Rightarrow> string \<times> string" where
  "scan_digits cs = (takeWhile is_digit cs, dropWhile is_digit cs)"

definition scan_exponent :: "bool \<Rightarrow> string \<Rightarrow> string \<Rightarrow> string \<Rightarrow> string + (jsnum \<times> string)" where
  "scan_exponent neg ip fp cs =
     (case cs of
        [] \<Rightarrow> Inr (mk_num neg ip fp False [], [])
      | c # r \<Rightarrow>
          if c = CHR ''e'' \<or> c = CHR ''E'' then
            (let (eneg, r') = (case r of
                                 [] \<Rightarrow> (False, [])
                               | s # t \<Rightarrow> if s = CHR ''-'' then (True, t)
                                          else if s = CHR ''+'' then (False, t)
                                          else (False, r));
                 (ep, rest) = scan_digits r'
             in if ep = [] then Inl rest else Inr (mk_num neg ip fp eneg ep, rest))
          else Inr (mk_num neg ip fp False [], cs))"

definition scan_fraction :: "bool \<Rightarrow> string \<Rightarrow> string \<Rightarrow> string + (jsnum \<times> string)" where
  "scan_fraction neg ip cs =
     (case cs of
        [] \<Rightarrow> scan_exponent neg ip [] []
      | c # r \<Rightarrow>
          if c = CHR ''.'' then
            (let (fp, rest) = scan_digits r
             in if fp = [] then Inl rest else scan_exponent neg ip fp rest)
          else scan_exponent neg ip [] cs)"

definition scan_number :: "string \<Rightarrow> string + (jsnum \<times> string)" where
  "scan_number cs =
     (let (neg, cs1) = (case cs of
                          [] \<Rightarrow> (False, [])
                        | c # r \<Rightarrow> if c = CHR ''-'' then (True, r) else (False, cs))
      in case cs1 of
           [] \<Rightarrow> Inl []
         | c # r \<Rightarrow>
             if \<not> is_digit c then Inl cs1
             else if c = CHR ''0'' then scan_fraction neg [c] r
             else (let (ip, rest) = scan_digits cs1 in scan_fraction neg ip rest))"



text \<open>A scanner that succeeds has consumed text: the lexer below terminates.\<close>

lemma le_dropWhile: "n \<le> length (dropWhile P xs) \<Longrightarrow> n \<le> length xs"
  by (meson le_trans length_dropWhile_le)

lemma scan_exponent_len: "scan_exponent neg ip fp cs = Inr (x, rest) \<Longrightarrow> length rest \<le> length cs"
  by (auto simp: scan_exponent_def scan_digits_def Let_def le_SucI length_dropWhile_le
        split: list.splits if_splits)

lemma scan_fraction_len: "scan_fraction neg ip cs = Inr (x, rest) \<Longrightarrow> length rest \<le> length cs"
  by (auto simp: scan_fraction_def scan_digits_def Let_def le_SucI
        dest!: scan_exponent_len le_dropWhile split: list.splits if_splits)

lemma scan_number_len: "scan_number cs = Inr (x, rest) \<Longrightarrow> length rest < length cs"
  by (auto simp: scan_number_def scan_digits_def Let_def less_Suc_eq_le le_SucI
        dest!: scan_fraction_len le_dropWhile split: list.splits if_splits)


subsection \<open>String literals\<close>

definition hex_val :: "char \<Rightarrow> nat option" where
  "hex_val c =
     (let n = (of_char c :: nat)
      in if 48 \<le> n \<and> n \<le> 57 then Some (n - 48)
         else if 65 \<le> n \<and> n \<le> 70 then Some (n - 55)
         else if 97 \<le> n \<and> n \<le> 102 then Some (n - 87)
         else None)"

definition is_hex :: "char \<Rightarrow> bool" where
  "is_hex c = (hex_val c \<noteq> None)"

definition unescape :: "char \<Rightarrow> char option" where
  "unescape c =
     (if c = DQ \<or> c = BS \<or> c = CHR ''/'' then Some c
      else if c = CHR ''b'' then Some (CHR 0x08)
      else if c = CHR ''f'' then Some (CHR 0x0C)
      else if c = CHR ''n'' then Some (CHR 0x0A)
      else if c = CHR ''r'' then Some (CHR 0x0D)
      else if c = CHR ''t'' then Some (CHR 0x09)
      else None)"

definition hex4 :: "string \<Rightarrow> string + char" where
  "hex4 cs =
     (let hs = takeWhile is_hex (take 4 cs)
      in if length hs < 4 then Inl (drop (length hs) cs)
         else let n = foldl (\<lambda>a c. 16 * a + (case hex_val c of Some d \<Rightarrow> d | None \<Rightarrow> 0)) 0 hs
              in if n < 256 then Inr (char_of n) else Inl cs)"

text \<open>The text after the opening quote, up to the closing one.\<close>

fun scan_string :: "string \<Rightarrow> string + (string \<times> string)" where
  "scan_string [] = Inl []"
| "scan_string (c # cs) =
     (if c = DQ then Inr ([], cs)
      else if c = BS then
        (case cs of
           [] \<Rightarrow> Inl []
         | d # ds \<Rightarrow>
             if d = CHR ''u'' then
               (case hex4 ds of
                  Inl bad \<Rightarrow> Inl bad
                | Inr ch \<Rightarrow>
                    (case scan_string (drop 4 ds) of
                       Inl bad \<Rightarrow> Inl bad
                     | Inr (s, rest) \<Rightarrow> Inr (ch # s, rest)))
             else
               (case unescape d of
                  None \<Rightarrow> Inl (d # ds)
                | Some ch \<Rightarrow>
                    (case scan_string ds of
                       Inl bad \<Rightarrow> Inl bad
                     | Inr (s, rest) \<Rightarrow> Inr (ch # s, rest))))
      else if (of_char c :: nat) < 32 then Inl (c # cs)
      else (case scan_string cs of
              Inl bad \<Rightarrow> Inl bad
            | Inr (s, rest) \<Rightarrow> Inr (c # s, rest)))"

lemma scan_string_len: "scan_string cs = Inr (s, rest) \<Longrightarrow> length rest < length cs"
proof (induction cs arbitrary: s rest rule: scan_string.induct)
  case 1
  then show ?case by simp
next
  case (2 c cs)
  show ?case
  proof (cases "c = DQ")
    case True
    with "2.prems" show ?thesis by simp
  next
    case notq: False
    show ?thesis
    proof (cases "c = BS")
      case True
      show ?thesis
      proof (cases cs)
        case Nil
        with "2.prems" notq True show ?thesis by simp
      next
        case (Cons d ds)
        show ?thesis
        proof (cases "d = CHR ''u''")
          case u: True
          from "2.prems" notq True Cons u obtain ch s' where
            h: "hex4 ds = Inr ch" and r: "scan_string (drop 4 ds) = Inr (s', rest)"
            by (auto split: sum.splits prod.splits)
          from "2.IH"(1) [OF notq True Cons u h r] have "length rest < length (drop 4 ds)" .
          with Cons show ?thesis by simp
        next
          case nu: False
          from "2.prems" notq True Cons nu obtain ch s' where
            h: "unescape d = Some ch" and r: "scan_string ds = Inr (s', rest)"
            by (auto split: sum.splits prod.splits option.splits)
          from "2.IH"(2) [OF notq True Cons nu h r] have "length rest < length ds" .
          with Cons show ?thesis by simp
        qed
      qed
    next
      case nb: False
      from "2.prems" notq nb obtain s' where
        c: "\<not> (of_char c :: nat) < 32" and r: "scan_string cs = Inr (s', rest)"
        by (auto split: sum.splits prod.splits if_splits)
      from "2.IH"(3) [OF notq nb c r] have "length rest < length cs" .
      then show ?thesis by simp
    qed
  qed
qed


subsection \<open>Tokens\<close>

datatype token =
    TLBrace | TRBrace | TLBrack | TRBrack | TColon | TComma
  | TStr string | TNum jsnum | TTrue | TFalse | TNull

datatype lexed = End | Bad string | Tok string token string

text \<open>
  A literal name (\<^verbatim>\<open>true\<close>, \<^verbatim>\<open>false\<close>, \<^verbatim>\<open>null\<close>); a text that departs from it is refused
  at the first character that differs.
\<close>

fun mismatch :: "string \<Rightarrow> string \<Rightarrow> string" where
  "mismatch (a # as) (c # cs) = (if a = c then mismatch as cs else c # cs)"
| "mismatch [] cs = cs"
| "mismatch as [] = []"

definition scan_literal :: "string \<Rightarrow> token \<Rightarrow> string \<Rightarrow> lexed" where
  "scan_literal lit t cs =
     (if take (length lit) cs = lit then Tok cs t (drop (length lit) cs)
      else Bad (mismatch lit cs))"

text \<open>The next token after white space: where it starts, what it is, and the rest.\<close>

definition next_token :: "string \<Rightarrow> lexed" where
  "next_token cs =
     (case dropWhile json_ws cs of
        [] \<Rightarrow> End
      | c # r \<Rightarrow>
          if c = CHR ''{'' then Tok (c # r) TLBrace r
          else if c = CHR ''}'' then Tok (c # r) TRBrace r
          else if c = CHR ''['' then Tok (c # r) TLBrack r
          else if c = CHR '']'' then Tok (c # r) TRBrack r
          else if c = CHR '':'' then Tok (c # r) TColon r
          else if c = CHR '','' then Tok (c # r) TComma r
          else if c = DQ then
            (case scan_string r of
               Inl bad \<Rightarrow> Bad bad
             | Inr (s, rest) \<Rightarrow> Tok (c # r) (TStr s) rest)
          else if c = CHR ''-'' \<or> is_digit c then
            (case scan_number (c # r) of
               Inl bad \<Rightarrow> Bad bad
             | Inr (x, rest) \<Rightarrow> Tok (c # r) (TNum x) rest)
          else if c = CHR ''t'' then scan_literal ''true'' TTrue (c # r)
          else if c = CHR ''f'' then scan_literal ''false'' TFalse (c # r)
          else if c = CHR ''n'' then scan_literal ''null'' TNull (c # r)
          else Bad (c # r))"

lemma scan_literal_len:
  "scan_literal lit t cs = Tok start t' rest \<Longrightarrow> lit \<noteq> [] \<Longrightarrow> length rest < length cs"
proof -
  assume a: "scan_literal lit t cs = Tok start t' rest" and n: "lit \<noteq> []"
  from a have tk: "take (length lit) cs = lit" and r: "rest = drop (length lit) cs"
    by (auto simp: scan_literal_def split: if_splits)
  from tk have "length lit \<le> length cs"
    by (metis length_take min.cobounded1)
  with n r show ?thesis by (cases lit) auto
qed

lemma next_token_len: "next_token cs = Tok start t rest \<Longrightarrow> length rest < length cs"
proof -
  assume a: "next_token cs = Tok start t rest"
  have d: "length (dropWhile json_ws cs) \<le> length cs" by (rule length_dropWhile_le)
  show ?thesis
  proof (cases "dropWhile json_ws cs")
    case Nil
    with a show ?thesis by (simp add: next_token_def)
  next
    case (Cons c r)
    have "length rest < length (c # r)"
    proof (cases "c = DQ")
      case True
      with a Cons obtain s where "scan_string r = Inr (s, rest)"
        by (auto simp: next_token_def DQ_def split: sum.splits prod.splits)
      from scan_string_len [OF this] show ?thesis by simp
    next
      case nq: False
      show ?thesis
      proof (cases "c = CHR ''-'' \<or> is_digit c")
        case True
        with a Cons nq obtain x where "scan_number (c # r) = Inr (x, rest)"
          by (auto simp: next_token_def DQ_def is_digit_def split: sum.splits prod.splits if_splits)
        from scan_number_len [OF this] show ?thesis .
      next
        case False
        with a Cons nq
        consider "rest = r"
          | lit t' s' where "scan_literal lit t' (c # r) = Tok s' t rest" "lit \<noteq> []"
          by (simp add: next_token_def split: if_splits)
        then show ?thesis
        proof cases
          case 1
          then show ?thesis by simp
        next
          case 2
          from scan_literal_len [OF 2] show ?thesis .
        qed
      qed
    qed
    with d Cons show ?thesis by simp
  qed
qed

text \<open>
  All tokens of a text, each with the text from its first character. A text that cannot
  be read further ends with \<open>(None, bad)\<close>.
\<close>

function tokenize :: "string \<Rightarrow> (token option \<times> string) list" where
  "tokenize cs =
     (case next_token cs of
        End \<Rightarrow> []
      | Bad bad \<Rightarrow> [(None, bad)]
      | Tok start t rest \<Rightarrow> (Some t, start) # tokenize rest)"
  by pat_completeness auto
termination
  by (relation "measure length") (auto dest: next_token_len)

declare tokenize.simps [simp del]


subsection \<open>The parser\<close>

text \<open>
  The parser reads the tokens in order and keeps the arrays and objects it is inside of
  on a stack: an array with its elements so far, an object with its properties so far,
  and an object waiting for the value of the key \<open>k\<close>. Its state says what may come
  next: a value, a value or \<^verbatim>\<open>]\<close>, a key or \<^verbatim>\<open>}\<close>, a key, a colon, a comma or a closing
  bracket, or nothing more.
\<close>

datatype frame =
    FArray "json list"
  | FObject "(string \<times> json) list"
  | FMember "(string \<times> json) list" string

datatype pstate = SValue | SFirst | SKeyFirst | SKey | SColon | SAfter | SDone json | SFail

text \<open>A complete value goes to the array or object it belongs to, or is the result.\<close>

fun deliver :: "json \<Rightarrow> frame list \<Rightarrow> pstate \<times> frame list" where
  "deliver v [] = (SDone v, [])"
| "deliver v (FArray es # st) = (SAfter, FArray (es @ [v]) # st)"
| "deliver v (FMember kvs k # st) = (SAfter, FObject (obj_put k v kvs) # st)"
| "deliver v (FObject kvs # st) = (SFail, FObject kvs # st)"

fun begin_value :: "token \<Rightarrow> frame list \<Rightarrow> pstate \<times> frame list" where
  "begin_value (TStr s) st = deliver (JString s) st"
| "begin_value (TNum x) st = deliver (JNumber x) st"
| "begin_value TTrue st = deliver (JBool True) st"
| "begin_value TFalse st = deliver (JBool False) st"
| "begin_value TNull st = deliver JNull st"
| "begin_value TLBrack st = (SFirst, FArray [] # st)"
| "begin_value TLBrace st = (SKeyFirst, FObject [] # st)"
| "begin_value t st = (SFail, st)"

fun parse_step :: "pstate \<Rightarrow> frame list \<Rightarrow> token \<Rightarrow> pstate \<times> frame list" where
  "parse_step SValue st t = begin_value t st"
| "parse_step SFirst (FArray es # st) TRBrack = deliver (JArray es) st"
| "parse_step SFirst st t = begin_value t st"
| "parse_step SKeyFirst (FObject kvs # st) TRBrace = deliver (JObject kvs) st"
| "parse_step SKeyFirst (FObject kvs # st) (TStr k) = (SColon, FMember kvs k # st)"
| "parse_step SKey (FObject kvs # st) (TStr k) = (SColon, FMember kvs k # st)"
| "parse_step SColon st TColon = (SValue, st)"
| "parse_step SAfter (FArray es # st) TComma = (SValue, FArray es # st)"
| "parse_step SAfter (FArray es # st) TRBrack = deliver (JArray es) st"
| "parse_step SAfter (FObject kvs # st) TComma = (SKey, FObject kvs # st)"
| "parse_step SAfter (FObject kvs # st) TRBrace = deliver (JObject kvs) st"
| "parse_step s st t = (SFail, st)"

fun parse_tokens :: "pstate \<Rightarrow> frame list \<Rightarrow> (token option \<times> string) list \<Rightarrow> string + json" where
  "parse_tokens (SDone v) st [] = Inr v"
| "parse_tokens s st [] = Inl []"
| "parse_tokens s st ((None, bad) # ts) = Inl bad"
| "parse_tokens s st ((Some t, start) # ts) =
     (case parse_step s st t of
        (SFail, st') \<Rightarrow> Inl start
      | (s', st') \<Rightarrow> parse_tokens s' st' ts)"

text \<open>The message of the SyntaxError, from the text and the place the parser stopped at.\<close>

definition syntax_error :: "string \<Rightarrow> string \<Rightarrow> string" where
  "syntax_error text bad =
     (case bad of
        [] \<Rightarrow> ''Unexpected end of JSON input''
      | c # r \<Rightarrow>
          (if c = DQ then ''Unexpected string''
           else if c = CHR ''-'' \<or> is_digit c then ''Unexpected number''
           else ''Unexpected token '' @ [c])
          @ '' in JSON at position '' @ show_nat (length text - length bad))"

definition parse_json :: "string \<Rightarrow> string + json" where
  "parse_json text =
     (case parse_tokens SValue [] (tokenize text) of
        Inl bad \<Rightarrow> Inl (syntax_error text bad)
      | Inr v \<Rightarrow> Inr v)"

subsection \<open>Numbers to text and back\<close>

text \<open>
  Number::toString with radix 10, from the digits \<open>ds\<close> of the mantissa and the position
  \<open>n\<close> of the decimal point after its first digit.
\<close>

definition exponent_text :: "string \<Rightarrow> int \<Rightarrow> string" where
  "exponent_text ds n =
     (let x = n - 1
      in (if length ds = 1 then ds else take 1 ds @ ''.'' @ drop 1 ds)
         @ ''e'' @ (if x < 0 then ''-'' else ''+'') @ show_nat (nat \<bar>x\<bar>))"

definition decimal_text :: "string \<Rightarrow> int \<Rightarrow> string" where
  "decimal_text ds n =
     (let k = int (length ds)
      in if k \<le> n \<and> n \<le> 21 then ds @ replicate (nat (n - k)) (CHR ''0'')
         else if 0 < n \<and> n \<le> 21 then take (nat n) ds @ ''.'' @ drop (nat n) ds
         else if - 6 < n \<and> n \<le> 0 then ''0.'' @ replicate (nat (- n)) (CHR ''0'') @ ds
         else exponent_text ds n)"

fun number_text :: "jsnum \<Rightarrow> string" where
  "number_text (Fin m e) =
     (let ds = show_nat (nat \<bar>m\<bar>); ds' = strip_zeros ds
      in if m = 0 then ''0''
         else (if m < 0 then ''-'' else [])
              @ decimal_text ds' (int (length ds) + e))"
| "number_text PosInf = ''Infinity''"
| "number_text NegInf = ''-Infinity''"
| "number_text NaN = ''NaN''"

text \<open>StringToNumber: the number a string denotes, NaN when it denotes none.\<close>

definition radix_digits :: "nat \<Rightarrow> string \<Rightarrow> jsnum" where
  "radix_digits b ds =
     (if ds \<noteq> [] \<and> list_all (\<lambda>c. case hex_val c of None \<Rightarrow> False | Some d \<Rightarrow> d < b) ds
      then (let m = foldl (\<lambda>a c. int b * a + int (case hex_val c of None \<Rightarrow> 0 | Some d \<Rightarrow> d)) 0 ds
            in if m = 0 then Fin 0 0 else mk_num False (show_nat (nat m)) [] False [])
      else NaN)"

definition unsigned_decimal :: "bool \<Rightarrow> string \<Rightarrow> jsnum" where
  "unsigned_decimal neg cs =
     (if cs = ''Infinity'' then (if neg then NegInf else PosInf)
      else
        let (ip, r1) = scan_digits cs;
            (fp, r2) = (case r1 of
                          [] \<Rightarrow> ([], [])
                        | c # r \<Rightarrow> if c = CHR ''.'' then scan_digits r else ([], r1))
        in if ip = [] \<and> fp = [] then NaN
           else (case scan_exponent neg ip fp r2 of
                   Inl bad \<Rightarrow> NaN
                 | Inr (x, rest) \<Rightarrow> if rest = [] then x else NaN))"

definition string_number :: "string \<Rightarrow> jsnum" where
  "string_number s =
     (let t = trim s
      in case t of
           [] \<Rightarrow> Fin 0 0
         | c # r \<Rightarrow>
             if c = CHR ''+'' then unsigned_decimal False r
             else if c = CHR ''-'' then unsigned_decimal True r
             else if take 2 t = ''0x'' \<or> take 2 t = ''0X'' then radix_digits 16 (drop 2 t)
             else if take 2 t = ''0o'' \<or> take 2 t = ''0O'' then radix_digits 8 (drop 2 t)
             else if take 2 t = ''0b'' \<or> take 2 t = ''0B'' then radix_digits 2 (drop 2 t)
             else unsigned_decimal False t)"

subsection \<open>JSON.stringify\<close>

text \<open>QuoteJSONString, and the serialisation of a value; a number that is not finite is \<^verbatim>\<open>null\<close>.\<close>

definition hex_char :: "nat \<Rightarrow> char" where
  "hex_char d = (if d < 10 then char_of (48 + d) else char_of (87 + d))"

definition quote_char :: "char \<Rightarrow> string" where
  "quote_char c =
     (if c = DQ then [BS, DQ]
      else if c = BS then [BS, BS]
      else if c = CHR 0x08 then [BS, CHR ''b'']
      else if c = CHR 0x09 then [BS, CHR ''t'']
      else if c = CHR 0x0A then [BS, CHR ''n'']
      else if c = CHR 0x0C then [BS, CHR ''f'']
      else if c = CHR 0x0D then [BS, CHR ''r'']
      else if (of_char c :: nat) < 32
        then [BS] @ ''u00'' @ [hex_char ((of_char c :: nat) div 16), hex_char ((of_char c :: nat) mod 16)]
      else [c])"

definition quote :: "string \<Rightarrow> string" where
  "quote s = [DQ] @ concat (map quote_char s) @ [DQ]"

fun stringify :: "json \<Rightarrow> string" where
  "stringify JNull = ''null''"
| "stringify (JBool b) = (if b then ''true'' else ''false'')"
| "stringify (JNumber x) = (case x of Fin m e \<Rightarrow> number_text x | _ \<Rightarrow> ''null'')"
| "stringify (JString s) = quote s"
| "stringify (JArray xs) = ''['' @ join_comma (map stringify xs) @ '']''"
| "stringify (JObject kvs) =
     ''{'' @ join_comma (map (\<lambda>(k, v). quote k @ '':'' @ stringify v) kvs) @ ''}''"

subsection \<open>The engine\<close>

definition node18 :: js_engine where
  "node18 =
     \<lparr>JSON_parse = parse_json,
      JSON_stringify = stringify,
      StringToNumber = string_number,
      NumberToString = number_text,
      TypeError_null =
        (\<lambda>p. ''Cannot read properties of null (reading '' @ [SQ] @ p @ [SQ] @ '')''),
      TypeError_primitive = ''Cannot convert object to primitive value''\<rparr>"

section \<open>The Node 18 model on blank text and on plain strings\<close>

text \<open>
  Two facts about the model of the engine, for the examples below: blank text does not
  parse, and an object with a prompt and a completion that need no escapes parses to these
  two strings, however long they are.
\<close>

lemma tokenize_blank: "blank line \<Longrightarrow> tokenize line = []"
proof -
  assume "blank line"
  then have d: "dropWhile json_ws line = []" by (simp add: blank_def list_all_iff)
  have "next_token line = End" unfolding next_token_def d by simp
  then show ?thesis by (simp add: tokenize.simps)
qed

lemma parse_json_blank: "blank line \<Longrightarrow> parse_json line = Inl ''Unexpected end of JSON input''"
  by (simp add: parse_json_def tokenize_blank syntax_error_def)

lemma scan_string_plain: "list_all plain s \<Longrightarrow> scan_string (s @ DQ # rest) = Inr (s, rest)"
  by (induction s) (auto simp: plain_def)

lemma tokenize_string:
  "list_all plain s \<Longrightarrow>
   tokenize (DQ # s @ DQ # rest) = (Some (TStr s), DQ # s @ DQ # rest) # tokenize rest"
  by (subst tokenize.simps) (simp add: next_token_def json_ws_def scan_string_plain DQ_def [symmetric], simp add: DQ_def)

lemma tokenize_punct:
  "tokenize (CHR ''{'' # r) = (Some TLBrace, CHR ''{'' # r) # tokenize r"
  "tokenize (CHR ''}'' # r) = (Some TRBrace, CHR ''}'' # r) # tokenize r"
  "tokenize (CHR '':'' # r) = (Some TColon, CHR '':'' # r) # tokenize r"
  "tokenize (CHR '','' # r) = (Some TComma, CHR '','' # r) # tokenize r"
  by (subst tokenize.simps, simp add: next_token_def json_ws_def)+

lemma tokenize_nil: "tokenize [] = []"
  by (subst tokenize.simps) (simp add: next_token_def)

lemma plain_names: "list_all plain ''prompt''" "list_all plain ''completion''"
  by (simp_all add: plain_def DQ_def BS_def)

lemma not_index_names: "\<not> is_index ''prompt''" "\<not> is_index ''completion''"
  by (simp_all add: is_index_def is_digit_def)

lemma parse_prompt_completion:
  assumes "list_all plain p" "list_all plain c"
  shows "parse_json (prompt_completion_line p c)
     = Inr (JObject [(''prompt'', JString p), (''completion'', JString c)])"
proof -
  let ?r6 = "''}''"
  let ?r5 = "DQ # c @ DQ # ?r6"
  let ?r4 = "CHR '':'' # ?r5"
  let ?r3 = "DQ # ''completion'' @ DQ # ?r4"
  let ?r2 = "CHR '','' # ?r3"
  let ?r1 = "DQ # p @ DQ # ?r2"
  let ?r0 = "CHR '':'' # ?r1"
  let ?q = "DQ # ''prompt'' @ DQ # ?r0"
  let ?l = "CHR ''{'' # ?q"
  have l: "prompt_completion_line p c = ?l"
    by (simp add: prompt_completion_line_def DQ_def)
  have "tokenize ?l =
     [(Some TLBrace, ?l), (Some (TStr ''prompt''), ?q), (Some TColon, ?r0),
      (Some (TStr p), ?r1), (Some TComma, ?r2), (Some (TStr ''completion''), ?r3),
      (Some TColon, ?r4), (Some (TStr c), ?r5), (Some TRBrace, ?r6)]"
    by (simp only: tokenize_punct tokenize_nil tokenize_string [OF assms(1)]
          tokenize_string [OF assms(2)] tokenize_string [OF plain_names(1)]
          tokenize_string [OF plain_names(2)])
  then show ?thesis
    unfolding l parse_json_def
    by (simp add: obj_put_def not_index_names)
qed

lemma plain_replicate: "plain x \<Longrightarrow> list_all plain (replicate n x)"
  by (simp add: list_all_iff)

lemma plain_a: "plain (CHR ''a'')"
  by (simp add: plain_def DQ_def BS_def)

section \<open>The validator\<close>

subsection \<open>The loop adds the errors of each line and counts every line\<close>

lemma field_checks_append:
  "field_checks E n parsed errs =
     (errs @ fst (field_checks E n parsed []), snd (field_checks E n parsed []))"
proof (cases "parsed = JNull")
  case True
  then show ?thesis by (simp add: field_checks_def)
next
  case False
  show ?thesis
  proof (cases "too_long E (get_field parsed ''prompt'')")
    case (Inl e)
    with False show ?thesis by (simp add: field_checks_def Let_def)
  next
    case p: (Inr long1)
    show ?thesis
    proof (cases "too_long E (get_field parsed ''completion'')")
      case (Inl e)
      with False p show ?thesis by (simp add: field_checks_def Let_def)
    next
      case (Inr long2)
      with False p show ?thesis by (simp add: field_checks_def Let_def)
    qed
  qed
qed

lemma validate_line_append: "validate_line E n line errs = errs @ line_errors E n line"
proof (cases "JSON_parse E line")
  case (Inl m)
  then show ?thesis by (simp add: validate_line_def line_errors_def)
next
  case (Inr parsed)
  obtain es x where fc: "field_checks E n parsed [] = (es, x)" by (cases "field_checks E n parsed []")
  with field_checks_append [of E n parsed errs] have "field_checks E n parsed errs = (errs @ es, x)"
    by simp
  with Inr fc show ?thesis
    by (cases x) (simp_all add: validate_line_def line_errors_def)
qed

lemma validate_loop_eq:
  "validate_loop E ls n errs =
     (n + length ls,
      errs @ concat (map (\<lambda>(i, l). line_errors E (Suc (n + i)) l) (enumerate 0 ls)))"
proof (induction ls arbitrary: n errs)
  case Nil
  then show ?case by simp
next
  case (Cons l ls)
  have e: "map (\<lambda>(i, l). line_errors E (Suc (n + i)) l) (enumerate (Suc 0) ls)
         = map (\<lambda>(i, l). line_errors E (Suc (Suc n + i)) l) (enumerate 0 ls)"
    by (simp add: enumerate_eq_zip map_zip_map2 [symmetric] del: upt_Suc)
       (simp add: map_Suc_upt [symmetric] zip_map1 case_prod_unfold del: upt_Suc)
  show ?case
    by (simp add: Cons.IH validate_line_append [of E "Suc n" l errs] e)
qed

lemma field_ok_D:
  "field_ok v \<Longrightarrow> truthy v \<and> is_string v \<and> too_long E v = Inr False"
  by (cases v rule: field_ok.cases) (simp_all add: too_long_def)

lemma not_field_ok_D:
  "\<not> field_ok v \<Longrightarrow> truthy v \<Longrightarrow> is_string v \<Longrightarrow> too_long E v = Inr True"
  by (cases v rule: field_ok.cases) (simp_all add: too_long_def)

lemma field_checks_clean_iff:
  assumes "parsed \<noteq> JNull"
  shows "field_checks E n parsed [] = ([], None) \<longleftrightarrow>
         field_ok (get_field parsed ''prompt'') \<and> field_ok (get_field parsed ''completion'')"
proof -
  let ?P = "get_field parsed ''prompt''" and ?C = "get_field parsed ''completion''"
  show ?thesis
  proof (cases "field_ok ?P \<and> field_ok ?C")
    case True
    with assms field_ok_D [of ?P E] field_ok_D [of ?C E] show ?thesis
      by (simp add: field_checks_def Let_def)
  next
    case False
    have "field_checks E n parsed [] \<noteq> ([], None)"
    proof (cases "truthy ?P \<and> is_string ?P \<and> truthy ?C \<and> is_string ?C")
      case strings: True
      show ?thesis
      proof (cases "field_ok ?P")
        case True
        with False have "\<not> field_ok ?C" by simp
        with strings have "too_long E ?C = Inr True" by (simp add: not_field_ok_D)
        with assms strings field_ok_D [OF True, of E] show ?thesis
          by (simp add: field_checks_def Let_def)
      next
        case False
        with strings have "too_long E ?P = Inr True" by (simp add: not_field_ok_D)
        with assms strings show ?thesis
          by (simp add: field_checks_def Let_def split: sum.splits)
      qed
    next
      case False
      with assms show ?thesis
        by (auto simp: field_checks_def Let_def split: sum.splits)
    qed
    with False show ?thesis by simp
  qed
qed

lemma line_errors_empty_iff: "line_errors E n line = [] \<longleftrightarrow> line_accepted E line"
proof (cases "JSON_parse E line")
  case (Inl m)
  then show ?thesis by (simp add: line_errors_def validate_line_def line_accepted_def)
next
  case (Inr parsed)
  show ?thesis
  proof (cases "parsed = JNull")
    case True
    with Inr show ?thesis
      by (simp add: line_errors_def validate_line_def line_accepted_def field_checks_def)
  next
    case False
    obtain es x where fc: "field_checks E n parsed [] = (es, x)"
      by (cases "field_checks E n parsed []")
    from Inr fc have "line_errors E n line = [] \<longleftrightarrow> es = [] \<and> x = None"
      by (cases x) (simp_all add: line_errors_def validate_line_def)
    with field_checks_clean_iff [OF False, of E n] fc Inr False show ?thesis
      by (simp add: line_accepted_def)
  qed
qed

lemma totalLines_eq: "totalLines (validateJSONL E content) = length (readline_lines content)"
  by (simp add: validateJSONL_def validate_loop_eq)

lemma errors_eq:
  "errors (validateJSONL E content) =
     concat (map (\<lambda>(i, l). line_errors E (Suc i) l) (enumerate 0 (readline_lines content)))"
  by (simp add: validateJSONL_def validate_loop_eq)

lemma isValid_eq: "isValid (validateJSONL E content) \<longleftrightarrow> errors (validateJSONL E content) = []"
  by (simp add: validateJSONL_def validate_loop_eq)

lemma isValid_iff:
  "isValid (validateJSONL E content) \<longleftrightarrow> (\<forall>line \<in> set (readline_lines content). line_accepted E line)"
proof -
  have "isValid (validateJSONL E content) \<longleftrightarrow>
        (\<forall>p \<in> set (enumerate 0 (readline_lines content)). line_errors E (Suc (fst p)) (snd p) = [])"
    by (auto simp: isValid_eq errors_eq)
  also have "\<dots> \<longleftrightarrow> (\<forall>p \<in> set (enumerate 0 (readline_lines content)). line_accepted E (snd p))"
    by (simp add: line_errors_empty_iff)
  also have "\<dots> \<longleftrightarrow> (\<forall>line \<in> set (readline_lines content). line_accepted E line)"
    by (metis (no_types, lifting) imageE image_eqI map_snd_enumerate set_map)
  finally show ?thesis .
qed

subsection \<open>Which lines are valid\<close>

text \<open>
  C1, as amended. A line adds no error if and only if it parses to a value whose
  \<open>prompt\<close> and \<open>completion\<close> are strings that are not empty and have at most 4096
  characters; and \<open>isValid\<close> is true if and only if every line of the file is such a
  line.
\<close>

theorem valid_iff_accepted:
  "(validate_line E n line errs = errs \<longleftrightarrow> line_accepted E line) \<and>
   (isValid (validateJSONL E content) \<longleftrightarrow>
      (\<forall>line \<in> set (readline_lines content). line_accepted E line))"
  using line_errors_empty_iff [of E n line] isValid_iff [of E content]
  by (simp add: validate_line_append)

text \<open>The theorem at a file of two valid lines.\<close>

theorem valid_iff_accepted_witness:
  \<open>line_accepted node18 ''{"prompt":"a","completion":"b"}'' \<and>
   validate_line node18 1 ''{"prompt":"a","completion":"b"}'' [] = [] \<and>
   isValid (validateJSONL node18
     (''{"prompt":"a","completion":"b"}'' @ [LF] @ ''{"completion":"d","prompt":"c"}'' @ [LF])) \<and>
   validate_line node18 1 (prompt_completion_line (replicate 4096 (CHR ''a'')) ''b'') [] = [] \<and>
   validate_line node18 1 (prompt_completion_line (replicate 4097 (CHR ''a'')) ''b'') [] \<noteq> []\<close>
proof -
  let ?c = \<open>''{"prompt":"a","completion":"b"}'' @ [LF] @ ''{"completion":"d","prompt":"c"}'' @ [LF]\<close>
  have a: \<open>line_accepted node18 ''{"prompt":"a","completion":"b"}''\<close>
    by code_simp
  have b: "\<forall>line \<in> set (readline_lines ?c). line_accepted node18 line"
    by code_simp
  have pb: "list_all plain ''b''" by (simp add: plain_def DQ_def BS_def)
  have p: "\<And>k. JSON_parse node18 (prompt_completion_line (replicate k (CHR ''a'')) ''b'')
      = Inr (JObject [(''prompt'', JString (replicate k (CHR ''a''))),
                      (''completion'', JString ''b'')])"
    by (simp add: node18_def parse_prompt_completion [OF plain_replicate [OF plain_a] pb])
  have c: "line_accepted node18 (prompt_completion_line (replicate 4096 (CHR ''a'')) ''b'')"
    by (simp add: line_accepted_def p)
  have d: "\<not> line_accepted node18 (prompt_completion_line (replicate 4097 (CHR ''a'')) ''b'')"
    by (simp add: line_accepted_def p)
  from a b valid_iff_accepted [of node18 1 \<open>''{"prompt":"a","completion":"b"}''\<close> "[]" ?c]
  have r1: \<open>validate_line node18 1 ''{"prompt":"a","completion":"b"}'' [] = []\<close>
    and r2: "isValid (validateJSONL node18 ?c)"
    by blast+
  from c valid_iff_accepted
    [of node18 1 "prompt_completion_line (replicate 4096 (CHR ''a'')) ''b''" "[]" "[]"]
  have r3: "validate_line node18 1 (prompt_completion_line (replicate 4096 (CHR ''a'')) ''b'') [] = []"
    by blast
  from d valid_iff_accepted
    [of node18 1 "prompt_completion_line (replicate 4097 (CHR ''a'')) ''b''" "[]" "[]"]
  have r4: "validate_line node18 1 (prompt_completion_line (replicate 4097 (CHR ''a'')) ''b'') [] \<noteq> []"
    by blast
  from a r1 r2 r3 r4 show ?thesis by blast
qed

text \<open>
  C1 as stated fails: in this line both fields are present, are strings and have at most
  4096 characters, and the validator reports the prompt as missing or invalid, because
  the empty string is falsy.
\<close>

theorem empty_prompt_counterexample:
  \<open>spec_line_valid node18 ''{"prompt":"","completion":"b"}'' \<and>
   validate_line node18 1 ''{"prompt":"","completion":"b"}'' []
     = [''Line 1: Missing or invalid 'prompt' field''] \<and>
   \<not> isValid (validateJSONL node18 ''{"prompt":"","completion":"b"}'')\<close>
  by code_simp

subsection \<open>How many lines are counted\<close>

lemma line_ends_LF: "line_ends (LF # cs) = Suc (line_ends cs)"
  by (cases cs) simp_all

lemma LF_not_CR: "LF \<noteq> CR"
  by (simp add: LF_def CR_def)

lemma line_ends_CR_LF: "line_ends (CR # LF # cs) = Suc (line_ends cs)"
  using LF_not_CR by (simp add: line_ends_LF)

lemma line_ends_CR: "d \<noteq> LF \<Longrightarrow> line_ends (CR # d # cs) = Suc (line_ends (d # cs))"
  by simp

lemma line_ends_other: "c \<noteq> LF \<Longrightarrow> c \<noteq> CR \<Longrightarrow> line_ends (c # cs) = line_ends cs"
  by (cases cs) simp_all

lemma readline_from_length:
  "length (readline_from buf cs) =
     line_ends cs
     + (if (if cs = [] then buf \<noteq> [] else last cs \<noteq> LF \<and> last cs \<noteq> CR) then 1 else 0)"
proof (induction buf cs rule: readline_from.induct)
  case (1 buf)
  show ?case by simp
next
  case (2 buf c cs)
  show ?case
  proof (cases "c = LF")
    case True
    with 2(1) show ?thesis by (simp add: line_ends_LF)
  next
    case nl: False
    show ?thesis
    proof (cases "c = CR")
      case cr: True
      show ?thesis
      proof (cases cs)
        case Nil
        with cr nl show ?thesis by simp
      next
        case (Cons d ds)
        show ?thesis
        proof (cases "d = LF")
          case True
          with 2(2) [OF nl cr Cons] cr nl Cons show ?thesis
            by (simp add: line_ends_LF LF_not_CR)
        next
          case False
          with 2(3) [OF nl cr Cons] cr nl Cons show ?thesis
            by simp
        qed
      qed
    next
      case False
      with 2(4) [OF nl] nl show ?thesis by (simp add: line_ends_other)
    qed
  qed
qed

lemma line_ends_count: "CR \<notin> set cs \<Longrightarrow> line_ends cs = count_list cs LF"
  by (induction cs rule: line_ends.induct) auto

text \<open>
  C6. For every text, \<open>totalLines\<close> is the number of its line ends, plus one when text
  follows the last line end: blank segments count, and so does a last line without a
  line end. A line end is a line feed, a carriage return with a line feed, or a carriage
  return alone. For a text without carriage returns that is the number of line feeds,
  plus one when the text does not end with a line feed.
\<close>

theorem totalLines_counts_segments:
  "totalLines (validateJSONL E content) = length (readline_lines content) \<and>
   totalLines (validateJSONL E content)
     = line_ends content + (if partial_line content then 1 else 0) \<and>
   (CR \<notin> set content \<longrightarrow>
      totalLines (validateJSONL E content) =
        count_list content LF + (if content = [] \<or> last content = LF then 0 else 1))"
proof -
  have a: "totalLines (validateJSONL E content) = length (readline_lines content)"
    by (rule totalLines_eq)
  have b: "length (readline_lines content)
     = line_ends content + (if partial_line content then 1 else 0)"
    using readline_from_length [of "[]" content]
    by (simp add: readline_lines_def partial_line_def)
  have c: "CR \<notin> set content \<Longrightarrow>
     length (readline_lines content)
       = count_list content LF + (if content = [] \<or> last content = LF then 0 else 1)"
  proof -
    assume n: "CR \<notin> set content"
    then have "content \<noteq> [] \<Longrightarrow> last content \<noteq> CR" by (metis last_in_set)
    with b line_ends_count [OF n] show ?thesis by (auto simp: partial_line_def)
  qed
  from a b c show ?thesis by simp
qed

text \<open>
  The theorem at texts with a blank line, with and without a last partial line, and at
  texts with each kind of line end.
\<close>

theorem totalLines_counts_segments_witness:
  \<open>CR \<notin> set (''{"prompt":"a"}'' @ [LF, LF] @ ''x'') \<and>
   readline_lines (''{"prompt":"a"}'' @ [LF, LF] @ ''x'') = [''{"prompt":"a"}'', [], ''x''] \<and>
   totalLines (validateJSONL node18 (''{"prompt":"a"}'' @ [LF, LF] @ ''x'')) = 3 \<and>
   totalLines (validateJSONL node18 (''{"prompt":"a"}'' @ [LF, LF])) = 2 \<and>
   totalLines (validateJSONL node18 []) = 0 \<and>
   readline_lines (''a'' @ [CR, LF] @ ''b'' @ [CR] @ ''c'' @ [LF, CR, CR, LF] @ ''d'')
     = [''a'', ''b'', ''c'', [], [], ''d''] \<and>
   totalLines (validateJSONL node18
      (''a'' @ [CR, LF] @ ''b'' @ [CR] @ ''c'' @ [LF, CR, CR, LF] @ ''d'')) = 6 \<and>
   totalLines (validateJSONL node18 (''a'' @ [CR] @ ''b'')) = 2 \<and>
   totalLines (validateJSONL node18 (''a'' @ [CR, LF])) = 1 \<and>
   totalLines (validateJSONL node18 (''a'' @ [CR])) = 1\<close>
proof -
  let ?t = \<open>''a'' @ [CR, LF] @ ''b'' @ [CR] @ ''c'' @ [LF, CR, CR, LF] @ ''d''\<close>
  have a: \<open>CR \<notin> set (''{"prompt":"a"}'' @ [LF, LF] @ ''x'')\<close> by code_simp
  have b: \<open>readline_lines (''{"prompt":"a"}'' @ [LF, LF] @ ''x'') = [''{"prompt":"a"}'', [], ''x'']\<close>
    by code_simp
  have c: \<open>CR \<notin> set (''{"prompt":"a"}'' @ [LF, LF])\<close> by code_simp
  have d: \<open>count_list (''{"prompt":"a"}'' @ [LF, LF] @ ''x'') LF = 2
      \<and> last (''{"prompt":"a"}'' @ [LF, LF] @ ''x'') \<noteq> LF\<close>
    by code_simp
  have e: \<open>count_list (''{"prompt":"a"}'' @ [LF, LF]) LF = 2
      \<and> last (''{"prompt":"a"}'' @ [LF, LF]) = LF\<close>
    by code_simp
  have f: "readline_lines ?t = [''a'', ''b'', ''c'', [], [], ''d'']" by code_simp
  have g: "line_ends ?t = 5 \<and> partial_line ?t" by code_simp
  have h: \<open>line_ends (''a'' @ [CR] @ ''b'') = 1 \<and> partial_line (''a'' @ [CR] @ ''b'')\<close>
    by code_simp
  have i: \<open>line_ends (''a'' @ [CR, LF]) = 1 \<and> \<not> partial_line (''a'' @ [CR, LF])\<close>
    by code_simp
  have j: \<open>line_ends (''a'' @ [CR]) = 1 \<and> \<not> partial_line (''a'' @ [CR])\<close>
    by code_simp
  have k: "line_ends [] = 0 \<and> \<not> partial_line []" by code_simp
  from a d totalLines_counts_segments [of node18 \<open>''{"prompt":"a"}'' @ [LF, LF] @ ''x''\<close>]
  have r1: \<open>totalLines (validateJSONL node18 (''{"prompt":"a"}'' @ [LF, LF] @ ''x'')) = 3\<close>
    by simp
  from c e totalLines_counts_segments [of node18 \<open>''{"prompt":"a"}'' @ [LF, LF]\<close>]
  have r2: \<open>totalLines (validateJSONL node18 (''{"prompt":"a"}'' @ [LF, LF])) = 2\<close>
    by simp
  from k totalLines_counts_segments [of node18 "[]"]
  have r3: "totalLines (validateJSONL node18 []) = 0" by (simp add: readline_lines_def)
  from g totalLines_counts_segments [of node18 ?t]
  have r4: "totalLines (validateJSONL node18 ?t) = 6" by simp
  from h totalLines_counts_segments [of node18 \<open>''a'' @ [CR] @ ''b''\<close>]
  have r5: \<open>totalLines (validateJSONL node18 (''a'' @ [CR] @ ''b'')) = 2\<close> by simp
  from i totalLines_counts_segments [of node18 \<open>''a'' @ [CR, LF]\<close>]
  have r6: \<open>totalLines (validateJSONL node18 (''a'' @ [CR, LF])) = 1\<close> by simp
  from j totalLines_counts_segments [of node18 \<open>''a'' @ [CR]\<close>]
  have r7: \<open>totalLines (validateJSONL node18 (''a'' @ [CR])) = 1\<close> by simp
  from a b f r1 r2 r3 r4 r5 r6 r7 show ?thesis by blast
qed

subsection \<open>Natural numbers as text and as numbers\<close>

lemma digit_val_digit_char: "d < 10 \<Longrightarrow> digit_val (digit_char d) = int d"
proof -
  assume d: "d < 10"
  then have "(of_char (char_of (48 + d)) :: nat) = 48 + d" by simp
  then have "(of_char (char_of (48 + d)) :: int) = int (48 + d)"
    by (metis of_nat_of_char)
  then show ?thesis by (simp add: digit_val_def digit_char_def)
qed

lemma is_digit_digit_char: "d < 10 \<Longrightarrow> is_digit (digit_char d)"
  by (simp add: is_digit_def digit_char_def)

lemma digits_val_snoc: "digits_val (ds @ [c]) = 10 * digits_val ds + digit_val c"
  by (simp add: digits_val_def)

lemma digits_val_show_nat: "digits_val (show_nat n) = int n"
proof (induction n rule: show_nat.induct)
  case (1 n)
  show ?case
  proof (cases "n < 10")
    case True
    then show ?thesis
      by (subst show_nat.simps) (simp add: digits_val_def digit_val_digit_char)
  next
    case False
    with 1 have "digits_val (show_nat (n div 10)) = int (n div 10)" by simp
    with False show ?thesis
      by (subst show_nat.simps) (simp add: digits_val_snoc digit_val_digit_char zdiv_int zmod_int)
  qed
qed

lemma show_nat_digits: "list_all is_digit (show_nat n)"
proof (induction n rule: show_nat.induct)
  case (1 n)
  then show ?case
    by (subst show_nat.simps) (simp add: is_digit_digit_char)
qed

lemma show_nat_inj: "show_nat a = show_nat b \<Longrightarrow> a = b"
  by (metis digits_val_show_nat of_nat_eq_iff)

lemma digits_then_colon:
  assumes "list_all is_digit xs" "list_all is_digit ys" "xs @ CHR '':'' # r = ys @ CHR '':'' # r'"
  shows "xs = ys"
proof -
  have c: "\<not> is_digit (CHR '':'')" by (simp add: is_digit_def)
  from assms(1) c have "takeWhile is_digit (xs @ CHR '':'' # r) = xs"
    by (simp add: takeWhile_tail list_all_iff)
  moreover from assms(2) c have "takeWhile is_digit (ys @ CHR '':'' # r') = ys"
    by (simp add: takeWhile_tail list_all_iff)
  ultimately show ?thesis using assms(3) by simp
qed

lemma digit_val_zero: "digit_val (CHR ''0'') = 0"
  by (simp add: digit_val_def)

lemma strip_zeros_snoc:
  "strip_zeros (ds @ [c]) = (if c = CHR ''0'' then strip_zeros ds else ds @ [c])"
  by (simp add: strip_zeros_def)

lemma strip_zeros_length: "length (strip_zeros ds) \<le> length ds"
  by (simp add: strip_zeros_def length_dropWhile_le [of _ "rev ds", simplified])

lemma strip_zeros_val:
  "digits_val ds = digits_val (strip_zeros ds) * 10 ^ (length ds - length (strip_zeros ds))"
proof (induction ds rule: rev_induct)
  case Nil
  show ?case by (simp add: strip_zeros_def digits_val_def)
next
  case (snoc c ds)
  show ?case
  proof (cases "c = CHR ''0''")
    case True
    have "length (ds @ [c]) - length (strip_zeros ds) = Suc (length ds - length (strip_zeros ds))"
      using strip_zeros_length [of ds] by simp
    with True snoc show ?thesis
      by (simp add: strip_zeros_snoc digits_val_snoc digit_val_zero)
  next
    case False
    then show ?thesis by (simp add: strip_zeros_snoc)
  qed
qed

lemma num_gt_num_of_nat: "num_gt (num_of_nat k) j \<longleftrightarrow> j < k"
proof -
  let ?ds = "show_nat k"
  let ?m = "digits_val (strip_zeros ?ds)"
  let ?z = "length ?ds - length (strip_zeros ?ds)"
  have v: "int k = ?m * 10 ^ ?z"
    using strip_zeros_val [of ?ds] by (simp add: digits_val_show_nat)
  show ?thesis
  proof (cases "?m = 0")
    case True
    with v have "k = 0" by simp
    with True show ?thesis by (simp add: num_of_nat_def mk_num_def Let_def)
  next
    case False
    have "num_of_nat k = Fin ?m (int ?z)"
      using False by (simp add: num_of_nat_def mk_num_def Let_def digits_val_def)
    then have "num_gt (num_of_nat k) j \<longleftrightarrow> int j < ?m * 10 ^ ?z" by simp
    also have "\<dots> \<longleftrightarrow> int j < int k" by (simp only: v)
    finally show ?thesis by simp
  qed
qed

subsection \<open>The length checks\<close>

lemma msg_distinct [simp]:
  "msg_prompt_long n \<noteq> msg_prompt n" "msg_prompt_long n \<noteq> msg_completion n"
  "msg_prompt_long n \<noteq> msg_completion_long n" "msg_prompt_long n \<noteq> msg_invalid n m"
  "msg_completion_long n \<noteq> msg_prompt n" "msg_completion_long n \<noteq> msg_completion n"
  "msg_completion_long n \<noteq> msg_prompt_long n" "msg_completion_long n \<noteq> msg_invalid n m"
  "msg_prompt n \<noteq> msg_completion n" "msg_prompt n \<noteq> msg_invalid n m"
  "msg_prompt n \<noteq> msg_prompt_long n" "msg_prompt n \<noteq> msg_completion_long n"
  "msg_completion n \<noteq> msg_prompt n" "msg_completion n \<noteq> msg_invalid n m"
  "msg_completion n \<noteq> msg_prompt_long n" "msg_completion n \<noteq> msg_completion_long n"
  "msg_invalid n m \<noteq> msg_prompt n" "msg_invalid n m \<noteq> msg_completion n"
  "msg_invalid n m \<noteq> msg_prompt_long n" "msg_invalid n m \<noteq> msg_completion_long n"
  by (simp_all add: msg_prompt_def msg_completion_def msg_prompt_long_def
        msg_completion_long_def msg_invalid_def)

text \<open>What the field checks leave in the errors array, case by case.\<close>

lemma field_checks_cases:
  assumes "parsed \<noteq> JNull"
  shows "field_checks E n parsed [] =
     (let P = get_field parsed ''prompt''; C = get_field parsed ''completion'';
          missing = (if \<not> truthy P \<or> \<not> is_string P then [msg_prompt n] else [])
                  @ (if \<not> truthy C \<or> \<not> is_string C then [msg_completion n] else [])
      in case too_long E P of
           Inl e \<Rightarrow> (missing, Some e)
         | Inr long1 \<Rightarrow>
             (case too_long E C of
                Inl e \<Rightarrow> (missing @ (if long1 then [msg_prompt_long n] else []), Some e)
              | Inr long2 \<Rightarrow>
                  (missing @ (if long1 then [msg_prompt_long n] else [])
                     @ (if long2 then [msg_completion_long n] else []), None)))"
  using assms by (simp add: field_checks_def Let_def split: sum.splits)

lemma line_errors_parsed:
  assumes "JSON_parse E line = Inr parsed"
  shows "line_errors E n line =
     (case field_checks E n parsed [] of
        (es, None) \<Rightarrow> es
      | (es, Some m) \<Rightarrow> es @ [msg_invalid n m])"
  using assms by (simp add: line_errors_def validate_line_def)

lemma null_line_errors:
  assumes "JSON_parse E line = Inr JNull"
  shows "line_errors E n line = [msg_invalid n (TypeError_null E ''prompt'')]"
  using assms by (simp add: line_errors_def validate_line_def field_checks_def)

lemma prompt_long_iff:
  assumes "JSON_parse E line = Inr parsed"
  shows "msg_prompt_long n \<in> set (line_errors E n line) \<longleftrightarrow>
         too_long E (get_field parsed ''prompt'') = Inr True"
proof (cases "parsed = JNull")
  case True
  with assms show ?thesis by (simp add: null_line_errors too_long_def)
next
  case nn: False
  show ?thesis
  proof (cases "too_long E (get_field parsed ''prompt'')")
    case (Inl e)
    then show ?thesis
      by (simp add: line_errors_parsed [OF assms] field_checks_cases [OF nn] Let_def)
  next
    case p: (Inr long1)
    show ?thesis
    proof (cases "too_long E (get_field parsed ''completion'')")
      case (Inl e)
      with p show ?thesis
        by (simp add: line_errors_parsed [OF assms] field_checks_cases [OF nn] Let_def)
    next
      case (Inr long2)
      with p show ?thesis
        by (simp add: line_errors_parsed [OF assms] field_checks_cases [OF nn] Let_def)
    qed
  qed
qed

lemma completion_long_iff:
  assumes "JSON_parse E line = Inr parsed"
  shows "msg_completion_long n \<in> set (line_errors E n line) \<longleftrightarrow>
         (\<exists>long1. too_long E (get_field parsed ''prompt'') = Inr long1)
         \<and> too_long E (get_field parsed ''completion'') = Inr True"
proof (cases "parsed = JNull")
  case True
  with assms show ?thesis by (simp add: null_line_errors too_long_def)
next
  case nn: False
  show ?thesis
  proof (cases "too_long E (get_field parsed ''prompt'')")
    case (Inl e)
    then show ?thesis
      by (simp add: line_errors_parsed [OF assms] field_checks_cases [OF nn] Let_def)
  next
    case p: (Inr long1)
    show ?thesis
    proof (cases "too_long E (get_field parsed ''completion'')")
      case (Inl e)
      with p show ?thesis
        by (simp add: line_errors_parsed [OF assms] field_checks_cases [OF nn] Let_def)
    next
      case (Inr long2)
      with p show ?thesis
        by (simp add: line_errors_parsed [OF assms] field_checks_cases [OF nn] Let_def)
    qed
  qed
qed

lemma too_long_string: "too_long E (Some (JString s)) = Inr (4096 < length s)"
  by (auto simp: too_long_def)

lemma too_long_array: "too_long E (Some (JArray xs)) = Inr (4096 < length xs)"
  by (simp add: too_long_def)

lemma too_long_True_iff: "too_long E v = Inr True \<longleftrightarrow> long_field E v"
proof (cases v)
  case None
  then show ?thesis by (simp add: too_long_def)
next
  case (Some x)
  show ?thesis
  proof (cases x)
    case (JObject kvs)
    show ?thesis
    proof (cases "map_of kvs ''length''")
      case None
      with Some JObject show ?thesis by (simp add: too_long_def)
    next
      case l: (Some l)
      with Some JObject show ?thesis
        by (cases "ToNumber E l") (simp_all add: too_long_def)
    qed
  qed (simp_all add: Some too_long_def)
qed

lemma too_long_returns_iff: "(\<exists>b. too_long E v = Inr b) \<longleftrightarrow> \<not> length_throws E v"
proof (cases v)
  case None
  then show ?thesis by (auto simp: too_long_def)
next
  case (Some x)
  show ?thesis
  proof (cases x)
    case (JObject kvs)
    show ?thesis
    proof (cases "map_of kvs ''length''")
      case None
      with Some JObject show ?thesis by (auto simp: too_long_def)
    next
      case l: (Some l)
      with Some JObject show ?thesis
        by (cases "ToNumber E l") (auto simp: too_long_def)
    qed
  qed (auto simp: Some too_long_def)
qed

lemma prompt_long_field:
  assumes "JSON_parse E line = Inr parsed"
  shows "msg_prompt_long n \<in> set (line_errors E n line) \<longleftrightarrow>
         long_field E (get_field parsed ''prompt'')"
  using prompt_long_iff [OF assms, of n] by (simp add: too_long_True_iff)

lemma completion_long_field:
  assumes "JSON_parse E line = Inr parsed"
  shows "msg_completion_long n \<in> set (line_errors E n line) \<longleftrightarrow>
         \<not> length_throws E (get_field parsed ''prompt'')
         \<and> long_field E (get_field parsed ''completion'')"
  using completion_long_iff [OF assms, of n]
  by (simp add: too_long_True_iff too_long_returns_iff)

text \<open>
  C7, as amended. For a line that parses, the validator adds the prompt's length error
  if and only if the prompt is a string of more than 4096 characters, an array of more
  than 4096 elements, or an object whose own property \<^verbatim>\<open>length\<close> converts to a number
  above 4096 (for a length that is the natural number \<open>k\<close>: if and only if \<open>4096 < k\<close>).
  An object without that property, or whose conversion throws, and a prompt that is
  absent, null, a boolean or a number get no length error. The same holds for the
  completion, provided the prompt's comparison did not throw.
\<close>

theorem length_error_iff:
  assumes "JSON_parse E line = Inr parsed"
  shows
   "(msg_prompt_long n \<in> set (line_errors E n line) \<longleftrightarrow>
       long_field E (get_field parsed ''prompt'')) \<and>
    (msg_completion_long n \<in> set (line_errors E n line) \<longleftrightarrow>
       \<not> length_throws E (get_field parsed ''prompt'') \<and>
       long_field E (get_field parsed ''completion'')) \<and>
    (\<forall>s. get_field parsed ''prompt'' = Some (JString s) \<longrightarrow>
       (msg_prompt_long n \<in> set (line_errors E n line) \<longleftrightarrow> 4096 < length s) \<and>
       (\<forall>t. get_field parsed ''completion'' = Some (JString t) \<longrightarrow>
          (msg_completion_long n \<in> set (line_errors E n line) \<longleftrightarrow> 4096 < length t))) \<and>
    (\<forall>xs. get_field parsed ''prompt'' = Some (JArray xs) \<longrightarrow>
       (msg_prompt_long n \<in> set (line_errors E n line) \<longleftrightarrow> 4096 < length xs)) \<and>
    (\<forall>kvs. get_field parsed ''prompt'' = Some (JObject kvs) \<longrightarrow>
       (map_of kvs ''length'' = None \<longrightarrow> msg_prompt_long n \<notin> set (line_errors E n line)) \<and>
       (\<forall>l x. map_of kvs ''length'' = Some l \<and> ToNumber E l = Inr x \<longrightarrow>
          (msg_prompt_long n \<in> set (line_errors E n line) \<longleftrightarrow> num_gt x 4096)) \<and>
       (\<forall>l e. map_of kvs ''length'' = Some l \<and> ToNumber E l = Inl e \<longrightarrow>
          msg_prompt_long n \<notin> set (line_errors E n line)) \<and>
       (\<forall>k. map_of kvs ''length'' = Some (JNumber (num_of_nat k)) \<longrightarrow>
          (msg_prompt_long n \<in> set (line_errors E n line) \<longleftrightarrow> 4096 < k))) \<and>
    (\<forall>kvs k. \<not> length_throws E (get_field parsed ''prompt'') \<and>
       get_field parsed ''completion'' = Some (JObject kvs) \<and>
       map_of kvs ''length'' = Some (JNumber (num_of_nat k)) \<longrightarrow>
       (msg_completion_long n \<in> set (line_errors E n line) \<longleftrightarrow> 4096 < k)) \<and>
    (get_field parsed ''prompt'' = None \<or> get_field parsed ''prompt'' = Some JNull \<or>
     (\<exists>b. get_field parsed ''prompt'' = Some (JBool b)) \<or>
     (\<exists>x. get_field parsed ''prompt'' = Some (JNumber x)) \<longrightarrow>
       msg_prompt_long n \<notin> set (line_errors E n line))"
proof -
  note p = prompt_long_field [OF assms, of n]
  note c = completion_long_field [OF assms, of n]
  have 3: "\<forall>s. get_field parsed ''prompt'' = Some (JString s) \<longrightarrow>
       (msg_prompt_long n \<in> set (line_errors E n line) \<longleftrightarrow> 4096 < length s) \<and>
       (\<forall>t. get_field parsed ''completion'' = Some (JString t) \<longrightarrow>
          (msg_completion_long n \<in> set (line_errors E n line) \<longleftrightarrow> 4096 < length t))"
    by (simp add: p c)
  have 4: "\<forall>xs. get_field parsed ''prompt'' = Some (JArray xs) \<longrightarrow>
       (msg_prompt_long n \<in> set (line_errors E n line) \<longleftrightarrow> 4096 < length xs)"
    by (simp add: p)
  have 5: "\<forall>kvs. get_field parsed ''prompt'' = Some (JObject kvs) \<longrightarrow>
       (map_of kvs ''length'' = None \<longrightarrow> msg_prompt_long n \<notin> set (line_errors E n line)) \<and>
       (\<forall>l x. map_of kvs ''length'' = Some l \<and> ToNumber E l = Inr x \<longrightarrow>
          (msg_prompt_long n \<in> set (line_errors E n line) \<longleftrightarrow> num_gt x 4096)) \<and>
       (\<forall>l e. map_of kvs ''length'' = Some l \<and> ToNumber E l = Inl e \<longrightarrow>
          msg_prompt_long n \<notin> set (line_errors E n line)) \<and>
       (\<forall>k. map_of kvs ''length'' = Some (JNumber (num_of_nat k)) \<longrightarrow>
          (msg_prompt_long n \<in> set (line_errors E n line) \<longleftrightarrow> 4096 < k))"
    by (simp add: p num_gt_num_of_nat)
  have 6: "\<forall>kvs k. \<not> length_throws E (get_field parsed ''prompt'') \<and>
       get_field parsed ''completion'' = Some (JObject kvs) \<and>
       map_of kvs ''length'' = Some (JNumber (num_of_nat k)) \<longrightarrow>
       (msg_completion_long n \<in> set (line_errors E n line) \<longleftrightarrow> 4096 < k)"
    by (simp add: c num_gt_num_of_nat)
  have 7: "get_field parsed ''prompt'' = None \<or> get_field parsed ''prompt'' = Some JNull \<or>
     (\<exists>b. get_field parsed ''prompt'' = Some (JBool b)) \<or>
     (\<exists>x. get_field parsed ''prompt'' = Some (JNumber x)) \<longrightarrow>
       msg_prompt_long n \<notin> set (line_errors E n line)"
    by (auto simp: p)
  from p c 3 4 5 6 7 show ?thesis by blast
qed

text \<open>
  The theorem at prompts of 4096 and 4097 characters, at fields that are objects with
  the lengths 4096, 4097, 1, the string \<^verbatim>\<open>4096.5\<close>, the array \<^verbatim>\<open>[5000]\<close> and
  \<^verbatim>\<open>true\<close>, at an object without a length, at a number, and at a prompt whose
  comparison throws.
\<close>

theorem length_error_iff_witness:
  \<open>msg_prompt_long 1
     \<in> set (line_errors node18 1 (prompt_completion_line (replicate 4097 (CHR ''a'')) ''b'')) \<and>
   msg_prompt_long 1
     \<notin> set (line_errors node18 1 (prompt_completion_line (replicate 4096 (CHR ''a'')) ''b'')) \<and>
   JSON_parse node18 ''{"prompt":"abc","completion":{"length":5000}}''
     = Inr (JObject [(''prompt'', JString ''abc''),
                     (''completion'', JObject [(''length'', JNumber (Fin 5 3))])]) \<and>
   msg_prompt_long 1 \<notin> set (line_errors node18 1 ''{"prompt":"abc","completion":{"length":5000}}'') \<and>
   msg_completion_long 1 \<in> set (line_errors node18 1 ''{"prompt":"abc","completion":{"length":5000}}'') \<and>
   JSON_parse node18 ''{"prompt":{"length":4096},"completion":{"length":4097}}''
     = Inr (JObject [(''prompt'', JObject [(''length'', JNumber (num_of_nat 4096))]),
                     (''completion'', JObject [(''length'', JNumber (num_of_nat 4097))])]) \<and>
   msg_prompt_long 1
     \<notin> set (line_errors node18 1 ''{"prompt":{"length":4096},"completion":{"length":4097}}'') \<and>
   msg_completion_long 1
     \<in> set (line_errors node18 1 ''{"prompt":{"length":4096},"completion":{"length":4097}}'') \<and>
   msg_prompt_long 1 \<in> set (line_errors node18 1 ''{"prompt":{"length":"4096.5"}}'') \<and>
   msg_prompt_long 1 \<notin> set (line_errors node18 1 ''{"prompt":{"length":1}}'') \<and>
   msg_prompt_long 1 \<notin> set (line_errors node18 1 ''{"prompt":{"size":5000}}'') \<and>
   msg_prompt_long 1 \<notin> set (line_errors node18 1 ''{"prompt":5000}'') \<and>
   msg_prompt_long 1 \<in> set (line_errors node18 1 ''{"prompt":{"length":[5000]}}'') \<and>
   msg_prompt_long 1 \<notin> set (line_errors node18 1 ''{"prompt":{"length":true}}'') \<and>
   msg_prompt_long 1 \<notin> set (line_errors node18 1
      ''{"prompt":{"length":{"toString":0}},"completion":{"length":5000}}'') \<and>
   msg_completion_long 1 \<notin> set (line_errors node18 1
      ''{"prompt":{"length":{"toString":0}},"completion":{"length":5000}}'')\<close>
proof -
  let ?v = "JObject [(''prompt'', JString ''abc''),
                     (''completion'', JObject [(''length'', JNumber (Fin 5 3))])]"
  have p: \<open>JSON_parse node18 ''{"prompt":"abc","completion":{"length":5000}}'' = Inr ?v\<close>
    by code_simp
  have a: "\<not> long_field node18 (get_field ?v ''prompt'')" by code_simp
  have b: "\<not> length_throws node18 (get_field ?v ''prompt'')
      \<and> long_field node18 (get_field ?v ''completion'')" by code_simp
  from length_error_iff [OF p, of 1] a b
  have r1: \<open>msg_prompt_long 1
      \<notin> set (line_errors node18 1 ''{"prompt":"abc","completion":{"length":5000}}'')\<close>
    and r2: \<open>msg_completion_long 1
      \<in> set (line_errors node18 1 ''{"prompt":"abc","completion":{"length":5000}}'')\<close>
    by blast+
  have pb: "list_all plain ''b''" by (simp add: plain_def DQ_def BS_def)
  have q: "\<And>k. JSON_parse node18 (prompt_completion_line (replicate k (CHR ''a'')) ''b'')
      = Inr (JObject [(''prompt'', JString (replicate k (CHR ''a''))),
                      (''completion'', JString ''b'')])"
    by (simp add: node18_def parse_prompt_completion [OF plain_replicate [OF plain_a] pb])
  from length_error_iff [OF q [of 4097], of 1]
  have r3: "msg_prompt_long 1
     \<in> set (line_errors node18 1 (prompt_completion_line (replicate 4097 (CHR ''a'')) ''b''))"
    by simp
  from length_error_iff [OF q [of 4096], of 1]
  have r4: "msg_prompt_long 1
     \<notin> set (line_errors node18 1 (prompt_completion_line (replicate 4096 (CHR ''a'')) ''b''))"
    by simp
  let ?l5 = \<open>''{"prompt":{"length":4096},"completion":{"length":4097}}''\<close>
  let ?v5 = "JObject [(''prompt'', JObject [(''length'', JNumber (num_of_nat 4096))]),
                      (''completion'', JObject [(''length'', JNumber (num_of_nat 4097))])]"
  have p5: "JSON_parse node18 ?l5 = Inr ?v5" by code_simp
  have t5: "\<not> length_throws node18 (get_field ?v5 ''prompt'')" by simp
  from length_error_iff [OF p5, of 1] t5
  have r5: "msg_prompt_long 1 \<notin> set (line_errors node18 1 ?l5)"
    and r6: "msg_completion_long 1 \<in> set (line_errors node18 1 ?l5)"
    by (simp_all add: num_gt_num_of_nat)
  let ?l7 = \<open>''{"prompt":{"length":"4096.5"}}''\<close>
  let ?v7 = "JObject [(''prompt'', JObject [(''length'', JString ''4096.5'')])]"
  have p7: "JSON_parse node18 ?l7 = Inr ?v7" by code_simp
  have a7: "long_field node18 (get_field ?v7 ''prompt'')" by code_simp
  from length_error_iff [OF p7, of 1] a7
  have r7: "msg_prompt_long 1 \<in> set (line_errors node18 1 ?l7)" by blast
  let ?l8 = \<open>''{"prompt":{"length":1}}''\<close>
  let ?v8 = "JObject [(''prompt'', JObject [(''length'', JNumber (num_of_nat 1))])]"
  have p8: "JSON_parse node18 ?l8 = Inr ?v8" by code_simp
  from length_error_iff [OF p8, of 1]
  have r8: "msg_prompt_long 1 \<notin> set (line_errors node18 1 ?l8)"
    by (simp add: num_gt_num_of_nat)
  let ?l9 = \<open>''{"prompt":{"size":5000}}''\<close>
  let ?v9 = "JObject [(''prompt'', JObject [(''size'', JNumber (Fin 5 3))])]"
  have p9: "JSON_parse node18 ?l9 = Inr ?v9" by code_simp
  from length_error_iff [OF p9, of 1]
  have r9: "msg_prompt_long 1 \<notin> set (line_errors node18 1 ?l9)" by simp
  let ?l10 = \<open>''{"prompt":5000}''\<close>
  let ?v10 = "JObject [(''prompt'', JNumber (Fin 5 3))]"
  have p10: "JSON_parse node18 ?l10 = Inr ?v10" by code_simp
  from length_error_iff [OF p10, of 1]
  have r10: "msg_prompt_long 1 \<notin> set (line_errors node18 1 ?l10)" by simp
  let ?l11 = \<open>''{"prompt":{"length":[5000]}}''\<close>
  let ?v11 = "JObject [(''prompt'', JObject [(''length'', JArray [JNumber (Fin 5 3)])])]"
  have p11: "JSON_parse node18 ?l11 = Inr ?v11" by code_simp
  have a11: "long_field node18 (get_field ?v11 ''prompt'')" by code_simp
  from length_error_iff [OF p11, of 1] a11
  have r11: "msg_prompt_long 1 \<in> set (line_errors node18 1 ?l11)" by blast
  let ?l12 = \<open>''{"prompt":{"length":true}}''\<close>
  let ?v12 = "JObject [(''prompt'', JObject [(''length'', JBool True)])]"
  have p12: "JSON_parse node18 ?l12 = Inr ?v12" by code_simp
  have a12: "\<not> long_field node18 (get_field ?v12 ''prompt'')" by code_simp
  from length_error_iff [OF p12, of 1] a12
  have r12: "msg_prompt_long 1 \<notin> set (line_errors node18 1 ?l12)" by blast
  let ?l13 = \<open>''{"prompt":{"length":{"toString":0}},"completion":{"length":5000}}''\<close>
  let ?v13 = "JObject [(''prompt'', JObject [(''length'', JObject [(''toString'', JNumber (Fin 0 0))])]),
                       (''completion'', JObject [(''length'', JNumber (Fin 5 3))])]"
  have p13: "JSON_parse node18 ?l13 = Inr ?v13" by code_simp
  have a13: "\<not> long_field node18 (get_field ?v13 ''prompt'')
      \<and> length_throws node18 (get_field ?v13 ''prompt'')" by code_simp
  from length_error_iff [OF p13, of 1] a13
  have r13: "msg_prompt_long 1 \<notin> set (line_errors node18 1 ?l13)"
    and r14: "msg_completion_long 1 \<notin> set (line_errors node18 1 ?l13)"
    by blast+
  from r1 r2 r3 r4 p p5 r5 r6 r7 r8 r9 r10 r11 r12 r13 r14 show ?thesis by blast
qed

text \<open>
  C7 as stated fails: here the prompt is an object, not a string, and the validator adds
  the prompt's length error.
\<close>

theorem object_length_counterexample:
  \<open>JSON_parse node18 ''{"prompt":{"length":5000}}''
     = Inr (JObject [(''prompt'', JObject [(''length'', JNumber (Fin 5 3))])]) \<and>
   \<not> is_string (Some (JObject [(''length'', JNumber (Fin 5 3))])) \<and>
   validate_line node18 1 ''{"prompt":{"length":5000}}'' []
     = [''Line 1: Missing or invalid 'prompt' field'',
        ''Line 1: Missing or invalid 'completion' field'',
        ''Line 1: Prompt exceeds maximum length of 4096 characters'']\<close>
  by code_simp

subsection \<open>Every error names the line it comes from\<close>

lemma line_tag_inj: "line_tag a @ x = line_tag b @ y \<Longrightarrow> a = b"
proof -
  assume "line_tag a @ x = line_tag b @ y"
  then have "show_nat a @ CHR '':'' # (CHR '' '' # x) = show_nat b @ CHR '':'' # (CHR '' '' # y)"
    by (simp add: line_tag_def)
  from digits_then_colon [OF show_nat_digits show_nat_digits this] show ?thesis
    by (rule show_nat_inj)
qed

lemma field_checks_tagged:
  assumes "parsed \<noteq> JNull" "e \<in> set (fst (field_checks E n parsed []))"
  shows "\<exists>t. e = line_tag n @ t"
  using assms
  by (auto simp: field_checks_cases Let_def msg_prompt_def msg_completion_def
        msg_prompt_long_def msg_completion_long_def split: sum.splits if_splits)

lemma line_errors_tagged:
  assumes "e \<in> set (line_errors E n line)"
  shows "\<exists>t. e = line_tag n @ t"
proof (cases "JSON_parse E line")
  case (Inl m)
  with assms show ?thesis
    by (simp add: line_errors_def validate_line_def msg_invalid_def)
next
  case (Inr parsed)
  show ?thesis
  proof (cases "parsed = JNull")
    case True
    with Inr assms show ?thesis
      by (simp add: line_errors_def validate_line_def field_checks_def msg_invalid_def)
  next
    case False
    obtain es x where fc: "field_checks E n parsed [] = (es, x)"
      by (cases "field_checks E n parsed []")
    with assms Inr have "e \<in> set es \<or> (\<exists>m. e = msg_invalid n m)"
      by (cases x) (auto simp: line_errors_parsed)
    with field_checks_tagged [OF False, of e E n] fc show ?thesis
      by (auto simp: msg_invalid_def)
  qed
qed

lemma errors_from_line:
  "e \<in> set (errors (validateJSONL E content)) \<longleftrightarrow>
   (\<exists>i < length (readline_lines content). e \<in> set (line_errors E (Suc i) (readline_lines content ! i)))"
proof
  assume "e \<in> set (errors (validateJSONL E content))"
  then show "\<exists>i < length (readline_lines content).
      e \<in> set (line_errors E (Suc i) (readline_lines content ! i))"
    by (auto simp: errors_eq in_set_enumerate_eq)
next
  assume "\<exists>i < length (readline_lines content).
      e \<in> set (line_errors E (Suc i) (readline_lines content ! i))"
  then obtain i where i: "i < length (readline_lines content)"
      "e \<in> set (line_errors E (Suc i) (readline_lines content ! i))" by blast
  then have "(i, readline_lines content ! i) \<in> set (enumerate 0 (readline_lines content))"
    by (simp add: in_set_enumerate_eq)
  with i(2) show "e \<in> set (errors (validateJSONL E content))"
    by (force simp: errors_eq)
qed

lemma errors_of_line_only:
  assumes "i < length (readline_lines content)"
  shows "line_tag (Suc i) @ t \<in> set (errors (validateJSONL E content)) \<longleftrightarrow>
         line_tag (Suc i) @ t \<in> set (line_errors E (Suc i) (readline_lines content ! i))"
proof
  assume "line_tag (Suc i) @ t \<in> set (errors (validateJSONL E content))"
  then obtain j where j: "j < length (readline_lines content)"
      "line_tag (Suc i) @ t \<in> set (line_errors E (Suc j) (readline_lines content ! j))"
    by (auto simp: errors_from_line)
  from line_errors_tagged [OF j(2)] obtain t' where "line_tag (Suc i) @ t = line_tag (Suc j) @ t'"
    by blast
  then have "Suc i = Suc j" by (rule line_tag_inj)
  with j(2) show "line_tag (Suc i) @ t \<in> set (line_errors E (Suc i) (readline_lines content ! i))"
    by simp
next
  assume "line_tag (Suc i) @ t \<in> set (line_errors E (Suc i) (readline_lines content ! i))"
  with assms show "line_tag (Suc i) @ t \<in> set (errors (validateJSONL E content))"
    by (auto simp: errors_from_line)
qed

subsection \<open>Blank lines\<close>

text \<open>
  C3, as amended. A blank line (empty, or white space only) is counted in \<open>totalLines\<close>
  and is reported with exactly one error, the invalid-format error of the parser; it
  gets neither missing-field error. This holds for every engine whose \<^verbatim>\<open>JSON.parse\<close>
  rejects blank text, as ECMAScript requires.
\<close>

theorem blank_line_invalid_json:
  assumes "i < length (readline_lines content)"
    and "blank (readline_lines content ! i)"
    and "\<And>line. blank line \<Longrightarrow> \<exists>message. JSON_parse E line = Inl message"
  shows "i < totalLines (validateJSONL E content) \<and>
    (\<exists>message.
       JSON_parse E (readline_lines content ! i) = Inl message \<and>
       line_errors E (Suc i) (readline_lines content ! i) = [msg_invalid (Suc i) message] \<and>
       msg_invalid (Suc i) message \<in> set (errors (validateJSONL E content))) \<and>
    msg_prompt (Suc i) \<notin> set (errors (validateJSONL E content)) \<and>
    msg_completion (Suc i) \<notin> set (errors (validateJSONL E content))"
proof -
  let ?l = "readline_lines content ! i"
  from assms(2,3) obtain message where m: "JSON_parse E ?l = Inl message" by blast
  then have le: "line_errors E (Suc i) ?l = [msg_invalid (Suc i) message]"
    by (simp add: line_errors_def validate_line_def)
  from assms(1) have t: "i < totalLines (validateJSONL E content)" by (simp add: totalLines_eq)
  from le assms(1) have a: "msg_invalid (Suc i) message \<in> set (errors (validateJSONL E content))"
    using errors_of_line_only [OF assms(1), of "''Invalid JSON format - '' @ message" E]
    by (simp add: msg_invalid_def)
  from le have b: "msg_prompt (Suc i) \<notin> set (errors (validateJSONL E content))"
    using errors_of_line_only [OF assms(1), of "''Missing or invalid 'prompt' field''" E]
    by (simp add: msg_prompt_def [symmetric])
  from le have c: "msg_completion (Suc i) \<notin> set (errors (validateJSONL E content))"
    using errors_of_line_only [OF assms(1), of "''Missing or invalid 'completion' field''" E]
    by (simp add: msg_completion_def [symmetric])
  from t m le a b c show ?thesis by blast
qed

text \<open>The theorem at a file whose second line is empty; the Node 18 model rejects blank text.\<close>

theorem blank_line_invalid_json_witness:
  \<open>readline_lines (''{"prompt":"a","completion":"b"}'' @ [LF, LF] @ ''{"prompt":"c","completion":"d"}'')
     = [''{"prompt":"a","completion":"b"}'', [], ''{"prompt":"c","completion":"d"}''] \<and>
   blank [] \<and>
   (1::nat) < totalLines (validateJSONL node18
      (''{"prompt":"a","completion":"b"}'' @ [LF, LF] @ ''{"prompt":"c","completion":"d"}'')) \<and>
   msg_prompt (Suc 1) \<notin> set (errors (validateJSONL node18
      (''{"prompt":"a","completion":"b"}'' @ [LF, LF] @ ''{"prompt":"c","completion":"d"}''))) \<and>
   msg_completion (Suc 1) \<notin> set (errors (validateJSONL node18
      (''{"prompt":"a","completion":"b"}'' @ [LF, LF] @ ''{"prompt":"c","completion":"d"}'')))\<close>
proof -
  let ?c = \<open>''{"prompt":"a","completion":"b"}'' @ [LF, LF] @ ''{"prompt":"c","completion":"d"}''\<close>
  have r: \<open>readline_lines ?c
     = [''{"prompt":"a","completion":"b"}'', [], ''{"prompt":"c","completion":"d"}'']\<close>
    by code_simp
  have b: "blank []" by (simp add: blank_def)
  have i: "1 < length (readline_lines ?c)" by code_simp
  have bl: "blank (readline_lines ?c ! 1)" by code_simp
  have e: "\<And>line. blank line \<Longrightarrow> \<exists>message. JSON_parse node18 line = Inl message"
    by (simp add: node18_def parse_json_blank)
  from blank_line_invalid_json [OF i bl e] r b show ?thesis by blast
qed

text \<open>
  C3 as stated fails: the blank second line is counted, and its only error is the
  invalid-format error, not the two missing-field errors.
\<close>

theorem blank_line_counterexample:
  \<open>validateJSONL node18
     (''{"prompt":"a","completion":"b"}'' @ [LF, LF] @ ''{"prompt":"c","completion":"d"}'')
   = \<lparr>isValid = False,
      errors = [''Line 2: Invalid JSON format - Unexpected end of JSON input''],
      totalLines = 3\<rparr>\<close>
  by code_simp

subsection \<open>Lines that parse to null, and exceptions\<close>

lemma from_line_iff: "from_line n e \<longleftrightarrow> (\<exists>t. e = line_tag n @ t)"
proof
  assume "from_line n e"
  then have "e = line_tag n @ drop (length (line_tag n)) e"
    by (metis append_take_drop_id from_line_def)
  then show "\<exists>t. e = line_tag n @ t" ..
next
  assume "\<exists>t. e = line_tag n @ t"
  then show "from_line n e" by (auto simp: from_line_def)
qed

lemma filter_own_line: "filter (from_line n) (line_errors E n l) = line_errors E n l"
  using line_errors_tagged [of _ E n l] by (simp add: filter_id_conv from_line_iff)

lemma filter_other_line:
  assumes "m \<noteq> n"
  shows "filter (from_line n) (line_errors E m l) = []"
proof -
  have "\<not> from_line n e" if "e \<in> set (line_errors E m l)" for e
  proof
    assume "from_line n e"
    then obtain t where t: "e = line_tag n @ t" by (auto simp: from_line_iff)
    from line_errors_tagged [OF that] obtain t' where "e = line_tag m @ t'" by blast
    with t have "line_tag m @ t' = line_tag n @ t" by simp
    then have "m = n" by (rule line_tag_inj)
    with assms show False by simp
  qed
  then show ?thesis by (simp add: filter_empty_conv)
qed

lemma filter_enumerate_lines:
  "filter (from_line (Suc i))
     (concat (map (\<lambda>(j, l). line_errors E (Suc j) l) (enumerate n ls)))
   = (if n \<le> i \<and> i < n + length ls then line_errors E (Suc i) (ls ! (i - n)) else [])"
proof (induction ls arbitrary: n)
  case Nil
  show ?case by auto
next
  case (Cons l ls)
  show ?case
  proof (cases "n = i")
    case True
    with Cons [of "Suc n"] show ?thesis by (simp add: filter_own_line)
  next
    case False
    then have "filter (from_line (Suc i)) (line_errors E (Suc n) l) = []"
      by (simp add: filter_other_line)
    moreover from False have "n < i \<Longrightarrow> (l # ls) ! (i - n) = ls ! (i - Suc n)"
      by (simp add: nth_Cons')
    ultimately show ?thesis using False Cons [of "Suc n"] by auto
  qed
qed

lemma errors_of_line:
  assumes "i < length (readline_lines content)"
  shows "filter (from_line (Suc i)) (errors (validateJSONL E content))
       = line_errors E (Suc i) (readline_lines content ! i)"
  using assms filter_enumerate_lines [of i E 0 "readline_lines content"]
  by (simp add: errors_eq)

lemma not_in_filter:
  assumes "filter (from_line n) es = fs" "from_line n e" "e \<notin> set fs"
  shows "e \<notin> set es"
  using assms by auto

lemma from_line_msgs: "from_line n (msg_prompt n)" "from_line n (msg_completion n)"
  by (simp_all add: from_line_iff msg_prompt_def msg_completion_def)

text \<open>
  C10, as amended. When there is a file at the path, the validator returns a record, in
  which \<open>isValid\<close> says whether \<open>errors\<close> is empty and \<open>totalLines\<close> is the number of lines
  read. For a line of the file that parses to null, the errors of the record that begin
  with that line's number are exactly one, the invalid-format error with the message of
  the TypeError; the record has neither missing-field error for the line and is not
  valid. Whatever \<^verbatim>\<open>JSON.parse\<close> or the field checks throw on a line is caught and is that
  line's last error. When there is no file at the path, the validator returns no record:
  its promise is rejected with the error of the open.
\<close>

theorem null_line_one_error:
  "(\<forall>content. files w filePath = Some content \<longrightarrow>
      validateJSONL_at E filePath w = Inr (validateJSONL E content) \<and>
      isValid (validateJSONL E content) = (errors (validateJSONL E content) = []) \<and>
      totalLines (validateJSONL E content) = length (readline_lines content) \<and>
      (\<forall>i < length (readline_lines content).
         (JSON_parse E (readline_lines content ! i) = Inr JNull \<longrightarrow>
            filter (from_line (Suc i)) (errors (validateJSONL E content))
              = [msg_invalid (Suc i) (TypeError_null E ''prompt'')] \<and>
            msg_prompt (Suc i) \<notin> set (errors (validateJSONL E content)) \<and>
            msg_completion (Suc i) \<notin> set (errors (validateJSONL E content)) \<and>
            \<not> isValid (validateJSONL E content)) \<and>
         (\<forall>message. JSON_parse E (readline_lines content ! i) = Inl message \<longrightarrow>
            filter (from_line (Suc i)) (errors (validateJSONL E content))
              = [msg_invalid (Suc i) message]) \<and>
         (\<forall>parsed errs' message.
            JSON_parse E (readline_lines content ! i) = Inr parsed \<and>
            field_checks E (Suc i) parsed [] = (errs', Some message) \<longrightarrow>
            filter (from_line (Suc i)) (errors (validateJSONL E content))
              = errs' @ [msg_invalid (Suc i) message]))) \<and>
   (files w filePath = None \<longrightarrow>
      validateJSONL_at E filePath w = Inl (enoent ''open'' filePath))"
proof -
  have at: "validateJSONL_at E filePath w = Inr (validateJSONL E content)"
    if "files w filePath = Some content" for content
    using that by (simp add: validateJSONL_at_def readFile_def)
  have none: "files w filePath = None \<Longrightarrow>
      validateJSONL_at E filePath w = Inl (enoent ''open'' filePath)"
    by (simp add: validateJSONL_at_def readFile_def)
  have line: "(JSON_parse E (readline_lines content ! i) = Inr JNull \<longrightarrow>
            filter (from_line (Suc i)) (errors (validateJSONL E content))
              = [msg_invalid (Suc i) (TypeError_null E ''prompt'')] \<and>
            msg_prompt (Suc i) \<notin> set (errors (validateJSONL E content)) \<and>
            msg_completion (Suc i) \<notin> set (errors (validateJSONL E content)) \<and>
            \<not> isValid (validateJSONL E content)) \<and>
         (\<forall>message. JSON_parse E (readline_lines content ! i) = Inl message \<longrightarrow>
            filter (from_line (Suc i)) (errors (validateJSONL E content))
              = [msg_invalid (Suc i) message]) \<and>
         (\<forall>parsed errs' message.
            JSON_parse E (readline_lines content ! i) = Inr parsed \<and>
            field_checks E (Suc i) parsed [] = (errs', Some message) \<longrightarrow>
            filter (from_line (Suc i)) (errors (validateJSONL E content))
              = errs' @ [msg_invalid (Suc i) message])"
    if i: "i < length (readline_lines content)" for content i
  proof -
    let ?l = "readline_lines content ! i"
    let ?es = "errors (validateJSONL E content)"
    note f = errors_of_line [OF i, of E]
    have a: "filter (from_line (Suc i)) ?es = [msg_invalid (Suc i) (TypeError_null E ''prompt'')] \<and>
            msg_prompt (Suc i) \<notin> set ?es \<and> msg_completion (Suc i) \<notin> set ?es \<and>
            \<not> isValid (validateJSONL E content)"
      if n: "JSON_parse E ?l = Inr JNull"
    proof -
      from f null_line_errors [OF n, of "Suc i"]
      have e: "filter (from_line (Suc i)) ?es = [msg_invalid (Suc i) (TypeError_null E ''prompt'')]"
        by simp
      from not_in_filter [OF e from_line_msgs(1)] have p: "msg_prompt (Suc i) \<notin> set ?es" by simp
      from not_in_filter [OF e from_line_msgs(2)] have c: "msg_completion (Suc i) \<notin> set ?es"
        by simp
      from e have "?es \<noteq> []" by auto
      then have "\<not> isValid (validateJSONL E content)" by (simp add: isValid_eq)
      with e p c show ?thesis by blast
    qed
    have b: "filter (from_line (Suc i)) ?es = [msg_invalid (Suc i) message]"
      if "JSON_parse E ?l = Inl message" for message
      using that f by (simp add: line_errors_def validate_line_def)
    have c: "filter (from_line (Suc i)) ?es = errs' @ [msg_invalid (Suc i) message]"
      if "JSON_parse E ?l = Inr parsed" "field_checks E (Suc i) parsed [] = (errs', Some message)"
      for parsed errs' message
      using that f by (simp add: line_errors_def validate_line_def)
    from a b c show ?thesis by blast
  qed
  have some: "validateJSONL_at E filePath w = Inr (validateJSONL E content) \<and>
      isValid (validateJSONL E content) = (errors (validateJSONL E content) = []) \<and>
      totalLines (validateJSONL E content) = length (readline_lines content) \<and>
      (\<forall>i < length (readline_lines content).
         (JSON_parse E (readline_lines content ! i) = Inr JNull \<longrightarrow>
            filter (from_line (Suc i)) (errors (validateJSONL E content))
              = [msg_invalid (Suc i) (TypeError_null E ''prompt'')] \<and>
            msg_prompt (Suc i) \<notin> set (errors (validateJSONL E content)) \<and>
            msg_completion (Suc i) \<notin> set (errors (validateJSONL E content)) \<and>
            \<not> isValid (validateJSONL E content)) \<and>
         (\<forall>message. JSON_parse E (readline_lines content ! i) = Inl message \<longrightarrow>
            filter (from_line (Suc i)) (errors (validateJSONL E content))
              = [msg_invalid (Suc i) message]) \<and>
         (\<forall>parsed errs' message.
            JSON_parse E (readline_lines content ! i) = Inr parsed \<and>
            field_checks E (Suc i) parsed [] = (errs', Some message) \<longrightarrow>
            filter (from_line (Suc i)) (errors (validateJSONL E content))
              = errs' @ [msg_invalid (Suc i) message]))"
    if s: "files w filePath = Some content" for content
  proof (intro conjI)
    show "validateJSONL_at E filePath w = Inr (validateJSONL E content)" by (rule at [OF s])
    show "isValid (validateJSONL E content) = (errors (validateJSONL E content) = [])"
      by (rule isValid_eq)
    show "totalLines (validateJSONL E content) = length (readline_lines content)"
      by (rule totalLines_eq)
    show "\<forall>i < length (readline_lines content).
         (JSON_parse E (readline_lines content ! i) = Inr JNull \<longrightarrow>
            filter (from_line (Suc i)) (errors (validateJSONL E content))
              = [msg_invalid (Suc i) (TypeError_null E ''prompt'')] \<and>
            msg_prompt (Suc i) \<notin> set (errors (validateJSONL E content)) \<and>
            msg_completion (Suc i) \<notin> set (errors (validateJSONL E content)) \<and>
            \<not> isValid (validateJSONL E content)) \<and>
         (\<forall>message. JSON_parse E (readline_lines content ! i) = Inl message \<longrightarrow>
            filter (from_line (Suc i)) (errors (validateJSONL E content))
              = [msg_invalid (Suc i) message]) \<and>
         (\<forall>parsed errs' message.
            JSON_parse E (readline_lines content ! i) = Inr parsed \<and>
            field_checks E (Suc i) parsed [] = (errs', Some message) \<longrightarrow>
            filter (from_line (Suc i)) (errors (validateJSONL E content))
              = errs' @ [msg_invalid (Suc i) message])"
      using line by blast
  qed
  from some none show ?thesis by blast
qed

text \<open>
  The theorem at a file of four lines: a valid one, the line \<^verbatim>\<open>null\<close>, a line that does
  not parse, and a line whose length comparison throws after an error was pushed.
\<close>

theorem null_line_one_error_witness:
  \<open>files \<lparr>files = [''uploads/1-data.jsonl'' \<mapsto>
        ''{"prompt":"a","completion":"b"}'' @ [LF] @ ''null'' @ [LF] @ ''{"prompt":'' @ [LF]
          @ ''{"prompt":"a","completion":{"length":{"toString":0}}}''],
      api_calls = []\<rparr> ''uploads/1-data.jsonl''
     = Some (''{"prompt":"a","completion":"b"}'' @ [LF] @ ''null'' @ [LF] @ ''{"prompt":'' @ [LF]
          @ ''{"prompt":"a","completion":{"length":{"toString":0}}}'') \<and>
   readline_lines (''{"prompt":"a","completion":"b"}'' @ [LF] @ ''null'' @ [LF] @ ''{"prompt":'' @ [LF]
          @ ''{"prompt":"a","completion":{"length":{"toString":0}}}'')
     = [''{"prompt":"a","completion":"b"}'', ''null'', ''{"prompt":'',
        ''{"prompt":"a","completion":{"length":{"toString":0}}}''] \<and>
   JSON_parse node18 ''null'' = Inr JNull \<and>
   validateJSONL_at node18 ''uploads/1-data.jsonl''
     \<lparr>files = [''uploads/1-data.jsonl'' \<mapsto>
        ''{"prompt":"a","completion":"b"}'' @ [LF] @ ''null'' @ [LF] @ ''{"prompt":'' @ [LF]
          @ ''{"prompt":"a","completion":{"length":{"toString":0}}}''],
      api_calls = []\<rparr>
     = Inr \<lparr>isValid = False,
            errors =
              [''Line 2: Invalid JSON format - Cannot read properties of null (reading 'prompt')'',
               ''Line 3: Invalid JSON format - Unexpected end of JSON input'',
               ''Line 4: Missing or invalid 'completion' field'',
               ''Line 4: Invalid JSON format - Cannot convert object to primitive value''],
            totalLines = 4\<rparr> \<and>
   filter (from_line (Suc 1))
     (errors (validateJSONL node18
        (''{"prompt":"a","completion":"b"}'' @ [LF] @ ''null'' @ [LF] @ ''{"prompt":'' @ [LF]
          @ ''{"prompt":"a","completion":{"length":{"toString":0}}}'')))
     = [''Line 2: Invalid JSON format - Cannot read properties of null (reading 'prompt')''] \<and>
   filter (from_line (Suc 2))
     (errors (validateJSONL node18
        (''{"prompt":"a","completion":"b"}'' @ [LF] @ ''null'' @ [LF] @ ''{"prompt":'' @ [LF]
          @ ''{"prompt":"a","completion":{"length":{"toString":0}}}'')))
     = [''Line 3: Invalid JSON format - Unexpected end of JSON input''] \<and>
   filter (from_line (Suc 3))
     (errors (validateJSONL node18
        (''{"prompt":"a","completion":"b"}'' @ [LF] @ ''null'' @ [LF] @ ''{"prompt":'' @ [LF]
          @ ''{"prompt":"a","completion":{"length":{"toString":0}}}'')))
     = [''Line 4: Missing or invalid 'completion' field'',
        ''Line 4: Invalid JSON format - Cannot convert object to primitive value'']\<close>
proof -
  let ?c = \<open>''{"prompt":"a","completion":"b"}'' @ [LF] @ ''null'' @ [LF] @ ''{"prompt":'' @ [LF]
          @ ''{"prompt":"a","completion":{"length":{"toString":0}}}''\<close>
  let ?w = "\<lparr>files = [''uploads/1-data.jsonl'' \<mapsto> ?c], api_calls = []\<rparr>"
  let ?l4 = \<open>''{"prompt":"a","completion":{"length":{"toString":0}}}''\<close>
  let ?v4 = "JObject [(''prompt'', JString ''a''),
          (''completion'', JObject [(''length'', JObject [(''toString'', JNumber (Fin 0 0))])])]"
  have f: "files ?w ''uploads/1-data.jsonl'' = Some ?c" by simp
  have ls: \<open>readline_lines ?c
     = [''{"prompt":"a","completion":"b"}'', ''null'', ''{"prompt":'', ?l4]\<close>
    by code_simp
  have n: "JSON_parse node18 ''null'' = Inr JNull" by code_simp
  have t: \<open>msg_invalid (Suc 1) (TypeError_null node18 ''prompt'')
      = ''Line 2: Invalid JSON format - Cannot read properties of null (reading 'prompt')''\<close>
    by code_simp
  have d: \<open>JSON_parse node18 ''{"prompt":'' = Inl ''Unexpected end of JSON input''\<close> by code_simp
  have m3: \<open>msg_invalid (Suc 2) ''Unexpected end of JSON input''
      = ''Line 3: Invalid JSON format - Unexpected end of JSON input''\<close>
    by code_simp
  have b: "JSON_parse node18 ?l4 = Inr ?v4" by code_simp
  have c: \<open>field_checks node18 (Suc 3) ?v4 []
     = ([''Line 4: Missing or invalid 'completion' field''],
        Some ''Cannot convert object to primitive value'')\<close>
    by code_simp
  have m4: \<open>msg_invalid (Suc 3) ''Cannot convert object to primitive value''
      = ''Line 4: Invalid JSON format - Cannot convert object to primitive value''\<close>
    by code_simp
  have v: \<open>validateJSONL node18 ?c
     = \<lparr>isValid = False,
        errors =
          [''Line 2: Invalid JSON format - Cannot read properties of null (reading 'prompt')'',
           ''Line 3: Invalid JSON format - Unexpected end of JSON input'',
           ''Line 4: Missing or invalid 'completion' field'',
           ''Line 4: Invalid JSON format - Cannot convert object to primitive value''],
        totalLines = 4\<rparr>\<close>
    by code_simp
  note th = null_line_one_error [of ?w "''uploads/1-data.jsonl''" node18]
  from th f have at: "validateJSONL_at node18 ''uploads/1-data.jsonl'' ?w = Inr (validateJSONL node18 ?c)"
    by blast
  from th f have lines: "\<forall>i < length (readline_lines ?c).
         (JSON_parse node18 (readline_lines ?c ! i) = Inr JNull \<longrightarrow>
            filter (from_line (Suc i)) (errors (validateJSONL node18 ?c))
              = [msg_invalid (Suc i) (TypeError_null node18 ''prompt'')]) \<and>
         (\<forall>message. JSON_parse node18 (readline_lines ?c ! i) = Inl message \<longrightarrow>
            filter (from_line (Suc i)) (errors (validateJSONL node18 ?c))
              = [msg_invalid (Suc i) message]) \<and>
         (\<forall>parsed errs' message.
            JSON_parse node18 (readline_lines ?c ! i) = Inr parsed \<and>
            field_checks node18 (Suc i) parsed [] = (errs', Some message) \<longrightarrow>
            filter (from_line (Suc i)) (errors (validateJSONL node18 ?c))
              = errs' @ [msg_invalid (Suc i) message])"
    by blast
  have i1: "1 < length (readline_lines ?c)" "readline_lines ?c ! 1 = ''null''"
    unfolding ls by simp_all
  have i2: \<open>2 < length (readline_lines ?c)\<close> \<open>readline_lines ?c ! 2 = ''{"prompt":''\<close>
    unfolding ls by simp_all
  have i3: "3 < length (readline_lines ?c)" "readline_lines ?c ! 3 = ?l4"
    unfolding ls by simp_all
  from lines i1 n have "filter (from_line (Suc 1)) (errors (validateJSONL node18 ?c))
      = [msg_invalid (Suc 1) (TypeError_null node18 ''prompt'')]"
    by metis
  with t have r1: \<open>filter (from_line (Suc 1)) (errors (validateJSONL node18 ?c))
      = [''Line 2: Invalid JSON format - Cannot read properties of null (reading 'prompt')'']\<close>
    by (simp only:)
  from lines i2 d have "filter (from_line (Suc 2)) (errors (validateJSONL node18 ?c))
      = [msg_invalid (Suc 2) ''Unexpected end of JSON input'']"
    by metis
  with m3 have r2: \<open>filter (from_line (Suc 2)) (errors (validateJSONL node18 ?c))
      = [''Line 3: Invalid JSON format - Unexpected end of JSON input'']\<close>
    by (simp only:)
  from lines i3 b c have "filter (from_line (Suc 3)) (errors (validateJSONL node18 ?c))
      = [''Line 4: Missing or invalid 'completion' field'']
        @ [msg_invalid (Suc 3) ''Cannot convert object to primitive value'']"
    by metis
  with m4 have r3: \<open>filter (from_line (Suc 3)) (errors (validateJSONL node18 ?c))
      = [''Line 4: Missing or invalid 'completion' field'',
         ''Line 4: Invalid JSON format - Cannot convert object to primitive value'']\<close>
    by (simp only: append.simps)
  from at v have r0: \<open>validateJSONL_at node18 ''uploads/1-data.jsonl'' ?w
     = Inr \<lparr>isValid = False,
        errors =
          [''Line 2: Invalid JSON format - Cannot read properties of null (reading 'prompt')'',
           ''Line 3: Invalid JSON format - Unexpected end of JSON input'',
           ''Line 4: Missing or invalid 'completion' field'',
           ''Line 4: Invalid JSON format - Cannot convert object to primitive value''],
        totalLines = 4\<rparr>\<close>
    by (simp only:)
  from f ls n r0 r1 r2 r3 show ?thesis by blast
qed

text \<open>
  C10 as stated fails in its last part: with no file at the path the validator returns no
  record, and the exception reaches the handler, which answers with status 500.
\<close>

theorem missing_file_counterexample:
  \<open>validateJSONL_at node18 ''uploads/1-data.jsonl'' \<lparr>files = Map.empty, api_calls = []\<rparr>
     = Inl (''ENOENT: no such file or directory, open '' @ [SQ] @ ''uploads/1-data.jsonl'' @ [SQ]) \<and>
   validate_jsonl_handler node18
       (Some \<lparr>path = ''uploads/1-data.jsonl'', filename = ''1-data.jsonl''\<rparr>)
       \<lparr>files = Map.empty, api_calls = []\<rparr>
     = (\<lparr>files = Map.empty, api_calls = []\<rparr>,
        \<lparr>status = 500, body = JObject
           [(''error'', JString ''Validation failed''),
            (''message'', JString (''ENOENT: no such file or directory, open '' @ [SQ]
               @ ''uploads/1-data.jsonl'' @ [SQ]))]\<rparr>)\<close>
  by (simp add: validateJSONL_at_def readFile_def enoent_def validate_jsonl_handler_def
        validate_jsonl_try_def cleanup_def existsSync_def)

section \<open>The handlers\<close>

subsection \<open>The scenario of the specification\<close>

text \<open>
  C2, as amended. On the two lines of the scenario the validator counts 2 lines and
  reports two errors, both for line 2: the prompt \<open>123\<close> is not a string, and the
  completion is missing. The endpoint answers the file with status 400, the two errors
  and the count.
\<close>

theorem validate_scenario:
  \<open>validateJSONL node18 (''{"prompt":"a","completion":"b"}'' @ [LF] @ ''{"prompt":123}'')
     = \<lparr>isValid = False,
        errors = [''Line 2: Missing or invalid 'prompt' field'',
                  ''Line 2: Missing or invalid 'completion' field''],
        totalLines = 2\<rparr> \<and>
   snd (validate_jsonl_handler node18
          (Some \<lparr>path = ''uploads/1-data.jsonl'', filename = ''1-data.jsonl''\<rparr>)
          \<lparr>files = [''uploads/1-data.jsonl'' \<mapsto>
                     ''{"prompt":"a","completion":"b"}'' @ [LF] @ ''{"prompt":123}''],
           api_calls = []\<rparr>)
     = \<lparr>status = 400,
        body = JObject
          [(''error'', JString ''Invalid JSONL format''),
           (''details'', JArray
              [JString ''Line 2: Missing or invalid 'prompt' field'',
               JString ''Line 2: Missing or invalid 'completion' field'']),
           (''totalLines'', JNumber (Fin 2 0))]\<rparr>\<close>
  by code_simp

text \<open>
  C2 as stated fails: the count is 2, but the errors are not the one string the scenario
  gives.
\<close>

theorem validate_scenario_counterexample:
  \<open>totalLines (validateJSONL node18
      (''{"prompt":"a","completion":"b"}'' @ [LF] @ ''{"prompt":123}'')) = 2 \<and>
   errors (validateJSONL node18
      (''{"prompt":"a","completion":"b"}'' @ [LF] @ ''{"prompt":123}''))
     \<noteq> [''Line 2: Missing or invalid 'prompt' field'']\<close>
  by code_simp

subsection \<open>The upload gate\<close>

lemma upload_try_invalid:
  assumes "files w (path f) = Some content" "\<not> isValid (validateJSONL E content)"
  shows "upload_try E openai f purpose w =
    (w\<lparr>files := (files w)(path f := None)\<rparr>,
     Inr \<lparr>status = 400, body = JObject
        [(''error'', JString ''Invalid JSONL format''),
         (''details'', JArray (map JString (errors (validateJSONL E content))))]\<rparr>)"
  using assms by (simp add: upload_try_def readFile_def unlinkSync_def existsSync_def)

lemma upload_try_calls:
  "api_calls (fst (upload_try E openai f purpose w)) = api_calls w \<or>
   (\<exists>content. files w (path f) = Some content \<and> isValid (validateJSONL E content) \<and>
      api_calls (fst (upload_try E openai f purpose w))
        = api_calls w @ [FilesCreate (path f) (purpose_or_default purpose)])"
proof (cases "files w (path f)")
  case None
  then show ?thesis by (simp add: upload_try_def readFile_def)
next
  case (Some content)
  show ?thesis
  proof (cases "isValid (validateJSONL E content)")
    case False
    with Some show ?thesis by (simp add: upload_try_invalid)
  next
    case True
    with Some show ?thesis
      by (cases "openai (FilesCreate (path f) (purpose_or_default purpose))")
         (simp_all add: upload_try_def readFile_def unlinkSync_def existsSync_def
            call_upstream_def)
  qed
qed

lemma cleanup_calls [simp]: "api_calls (cleanup p w) = api_calls w"
  by (simp add: cleanup_def unlinkSync_def)

text \<open>
  C8. When the validator reports the uploaded file invalid, the upload endpoint removes
  the file and answers 400 with the full list of errors, and the upstream calls are what
  they were. In every case the handler either makes no upstream call, or the file was
  valid and it made exactly one, the create-file call.
\<close>

theorem upload_gate:
  "(\<forall>f content. req_file = Some f \<and> files w (path f) = Some content
       \<and> \<not> isValid (validateJSONL E content) \<longrightarrow>
      upload_handler E openai req_file purpose w =
        (w\<lparr>files := (files w)(path f := None)\<rparr>,
         \<lparr>status = 400, body = JObject
            [(''error'', JString ''Invalid JSONL format''),
             (''details'', JArray (map JString (errors (validateJSONL E content))))]\<rparr>)) \<and>
   (api_calls (fst (upload_handler E openai req_file purpose w)) = api_calls w \<or>
    (\<exists>f content. req_file = Some f \<and> files w (path f) = Some content
       \<and> isValid (validateJSONL E content)
       \<and> api_calls (fst (upload_handler E openai req_file purpose w))
           = api_calls w @ [FilesCreate (path f) (purpose_or_default purpose)]))"
proof (cases req_file)
  case None
  then show ?thesis by (simp add: upload_handler_def)
next
  case (Some f)
  obtain w' r where t: "upload_try E openai f purpose w = (w', r)"
    by (cases "upload_try E openai f purpose w")
  from Some t have c: "api_calls (fst (upload_handler E openai req_file purpose w)) = api_calls w'"
    by (cases r) (simp_all add: upload_handler_def)
  from upload_try_calls [of E openai f purpose w] t c Some
  have second: "api_calls (fst (upload_handler E openai req_file purpose w)) = api_calls w \<or>
    (\<exists>f content. req_file = Some f \<and> files w (path f) = Some content
       \<and> isValid (validateJSONL E content)
       \<and> api_calls (fst (upload_handler E openai req_file purpose w))
           = api_calls w @ [FilesCreate (path f) (purpose_or_default purpose)])"
    by auto
  from Some have first: "\<forall>f content. req_file = Some f \<and> files w (path f) = Some content
       \<and> \<not> isValid (validateJSONL E content) \<longrightarrow>
      upload_handler E openai req_file purpose w =
        (w\<lparr>files := (files w)(path f := None)\<rparr>,
         \<lparr>status = 400, body = JObject
            [(''error'', JString ''Invalid JSONL format''),
             (''details'', JArray (map JString (errors (validateJSONL E content))))]\<rparr>)"
    by (auto simp: upload_handler_def upload_try_invalid)
  from first second show ?thesis by blast
qed

text \<open>The theorem at an invalid file; a valid file is forwarded with the default purpose.\<close>

theorem upload_gate_witness:
  \<open>\<not> isValid (validateJSONL node18 ''{"prompt":123}'') \<and>
   upload_handler node18 (\<lambda>c. Inr [(''id'', JString ''file-1'')])
       (Some \<lparr>path = ''uploads/1-data.jsonl'', filename = ''1-data.jsonl''\<rparr>) None
       \<lparr>files = [''uploads/1-data.jsonl'' \<mapsto> ''{"prompt":123}''], api_calls = []\<rparr>
     = (\<lparr>files = [''uploads/1-data.jsonl'' \<mapsto> ''{"prompt":123}'']
                 (''uploads/1-data.jsonl'' := None),
         api_calls = []\<rparr>,
        \<lparr>status = 400, body = JObject
           [(''error'', JString ''Invalid JSONL format''),
            (''details'', JArray
               [JString ''Line 1: Missing or invalid 'prompt' field'',
                JString ''Line 1: Missing or invalid 'completion' field''])]\<rparr>) \<and>
   api_calls (fst (upload_handler node18 (\<lambda>c. Inr [(''id'', JString ''file-1'')])
       (Some \<lparr>path = ''uploads/2-data.jsonl'', filename = ''2-data.jsonl''\<rparr>) None
       \<lparr>files = [''uploads/2-data.jsonl'' \<mapsto> ''{"prompt":"a","completion":"b"}''],
        api_calls = []\<rparr>))
     = [FilesCreate ''uploads/2-data.jsonl'' ''fine-tune'']\<close>
proof -
  let ?up = "(\<lambda>c. Inr [(''id'', JString ''file-1'')]) :: upstream"
  let ?f = "\<lparr>path = ''uploads/1-data.jsonl'', filename = ''1-data.jsonl''\<rparr>"
  let ?w = \<open>\<lparr>files = [''uploads/1-data.jsonl'' \<mapsto> ''{"prompt":123}''], api_calls = []\<rparr>\<close>
  let ?g = "\<lparr>path = ''uploads/2-data.jsonl'', filename = ''2-data.jsonl''\<rparr>"
  let ?v = \<open>\<lparr>files = [''uploads/2-data.jsonl'' \<mapsto> ''{"prompt":"a","completion":"b"}''],
        api_calls = []\<rparr>\<close>
  have inv: \<open>\<not> isValid (validateJSONL node18 ''{"prompt":123}'')\<close> by code_simp
  have errs: \<open>errors (validateJSONL node18 ''{"prompt":123}'')
     = [''Line 1: Missing or invalid 'prompt' field'',
        ''Line 1: Missing or invalid 'completion' field'']\<close> by code_simp
  have a: \<open>Some ?f = Some ?f \<and> files ?w (path ?f) = Some ''{"prompt":123}''
      \<and> \<not> isValid (validateJSONL node18 ''{"prompt":123}'')\<close>
    using inv by simp
  from upload_gate [of "Some ?f" ?w node18 ?up None] a errs
  have first: \<open>upload_handler node18 ?up (Some ?f) None ?w
     = (\<lparr>files = [''uploads/1-data.jsonl'' \<mapsto> ''{"prompt":123}'']
                 (''uploads/1-data.jsonl'' := None),
         api_calls = []\<rparr>,
        \<lparr>status = 400, body = JObject
           [(''error'', JString ''Invalid JSONL format''),
            (''details'', JArray
               [JString ''Line 1: Missing or invalid 'prompt' field'',
                JString ''Line 1: Missing or invalid 'completion' field''])]\<rparr>)\<close>
    by simp
  have second: \<open>api_calls (fst (upload_handler node18 ?up (Some ?g) None ?v))
     = [FilesCreate ''uploads/2-data.jsonl'' ''fine-tune'']\<close>
    by code_simp
  from inv first second show ?thesis by blast
qed

subsection \<open>Temporary files\<close>

text \<open>
  C4 does not hold of the image endpoints. When the upstream call of the edit endpoint
  fails, the handler answers 500 and the uploaded image is still there: the \<^verbatim>\<open>catch\<close>
  block removes nothing. The same happens when the request has an image and no prompt,
  and when the upstream call of the variation endpoint fails.
\<close>

theorem image_handlers_leave_upload:
  \<open>edit_image_handler node18 (\<lambda>c. Inl ''Connection error.'') ''2024-05-01T10:00:00.000Z''
       \<lparr>e_prompt = Some ''add a hat'',
        e_image = Some \<lparr>path = ''uploads/image-1.png'', filename = ''image-1.png''\<rparr>,
        e_mask = None\<rparr>
       \<lparr>files = [''uploads/image-1.png'' \<mapsto> ''PNG''], api_calls = []\<rparr>
     = (\<lparr>files = [''uploads/image-1.png'' \<mapsto> ''PNG''],
         api_calls = [ImagesEdit ''uploads/image-1.png'' None ''add a hat'']\<rparr>,
        \<lparr>status = 500, body = JObject
           [(''error'', JString ''Failed to edit image''),
            (''details'', JString ''Connection error.'')]\<rparr>) \<and>
   existsSync ''uploads/image-1.png''
     (fst (edit_image_handler node18 (\<lambda>c. Inl ''Connection error.'') ''2024-05-01T10:00:00.000Z''
       \<lparr>e_prompt = Some ''add a hat'',
        e_image = Some \<lparr>path = ''uploads/image-1.png'', filename = ''image-1.png''\<rparr>,
        e_mask = None\<rparr>
       \<lparr>files = [''uploads/image-1.png'' \<mapsto> ''PNG''], api_calls = []\<rparr>)) \<and>
   existsSync ''uploads/image-2.png''
     (fst (edit_image_handler node18 (\<lambda>c. Inr []) ''2024-05-01T10:00:00.000Z''
       \<lparr>e_prompt = None,
        e_image = Some \<lparr>path = ''uploads/image-2.png'', filename = ''image-2.png''\<rparr>,
        e_mask = None\<rparr>
       \<lparr>files = [''uploads/image-2.png'' \<mapsto> ''PNG''], api_calls = []\<rparr>)) \<and>
   image_variations_handler node18 (\<lambda>c. Inl ''Connection error.'') ''2024-05-01T10:00:00.000Z''
       (Some \<lparr>path = ''uploads/image-3.png'', filename = ''image-3.png''\<rparr>)
       \<lparr>files = [''uploads/image-3.png'' \<mapsto> ''PNG''], api_calls = []\<rparr>
     = (\<lparr>files = [''uploads/image-3.png'' \<mapsto> ''PNG''],
         api_calls = [ImagesCreateVariation ''uploads/image-3.png'']\<rparr>,
        \<lparr>status = 500, body = JObject
           [(''error'', JString ''Failed to generate variations''),
            (''details'', JString ''Connection error.'')]\<rparr>)\<close>
  by (simp add: edit_image_handler_def edit_image_try_def image_variations_handler_def
        image_variations_try_def call_upstream_def existsSync_def)

text \<open>
  The upload endpoint, for comparison: whatever happens, nothing is left at the path of
  the file it was given.
\<close>

lemma upload_try_file_removed:
  "files (cleanup (path f) (fst (upload_try E openai f purpose w))) (path f) = None"
  by (simp add: cleanup_def unlinkSync_def existsSync_def)

lemma upload_handler_file_removed:
  "files (fst (upload_handler E openai (Some f) purpose w)) (path f) = None"
proof (cases "files w (path f)")
  case None
  then show ?thesis
    by (simp add: upload_handler_def upload_try_def readFile_def cleanup_def existsSync_def)
next
  case (Some content)
  show ?thesis
  proof (cases "isValid (validateJSONL E content)")
    case False
    with Some show ?thesis by (simp add: upload_handler_def upload_try_invalid)
  next
    case True
    with Some show ?thesis
      by (cases "openai (FilesCreate (path f) (purpose_or_default purpose))")
         (simp_all add: upload_handler_def upload_try_def readFile_def unlinkSync_def
            existsSync_def call_upstream_def cleanup_def)
  qed
qed

subsection \<open>Listing a log\<close>

lemma sequence_results_map_Inr: "sequence_results (map Inr xs) = Inr xs"
  by (induction xs) simp_all

lemma sequence_results_Inr_D: "sequence_results rs = Inr xs \<Longrightarrow> rs = map Inr xs"
  by (induction rs arbitrary: xs rule: sequence_results.induct) (auto split: sum.splits)

lemma sequence_results_Inr: "sequence_results rs = Inr xs \<longleftrightarrow> rs = map Inr xs"
  using sequence_results_Inr_D sequence_results_map_Inr by blast

lemma sequence_results_Inl:
  "sequence_results rs = Inl e \<Longrightarrow> Inl e \<in> set rs"
  by (induction rs rule: sequence_results.induct) (auto split: sum.splits)

lemma sequence_results_all_Inr:
  assumes "\<forall>r \<in> set rs. \<exists>v. r = Inr v"
  shows "sequence_results rs = Inr (map projr rs)"
proof -
  from assms have "rs = map Inr (map projr rs)"
    by (induction rs) auto
  then show ?thesis by (metis sequence_results_map_Inr)
qed

lemma parse_log_ok:
  assumes "\<forall>line \<in> set (filter (\<lambda>line. trim line \<noteq> []) (split_lf content)).
             \<exists>v. JSON_parse E line = Inr v"
  shows "parse_log E content =
    Inr (rev (map (\<lambda>line. projr (JSON_parse E line))
               (filter (\<lambda>line. trim line \<noteq> []) (split_lf content))))"
proof -
  let ?ls = "filter (\<lambda>line. trim line \<noteq> []) (split_lf content)"
  from assms have "\<forall>r \<in> set (map (JSON_parse E) ?ls). \<exists>v. r = Inr v" by auto
  from sequence_results_all_Inr [OF this] show ?thesis
    by (simp add: parse_log_def comp_def)
qed

lemma parse_log_fails:
  assumes "line \<in> set (filter (\<lambda>line. trim line \<noteq> []) (split_lf content))"
    and "JSON_parse E line = Inl m"
  shows "\<exists>m' line'. parse_log E content = Inl m'
     \<and> line' \<in> set (filter (\<lambda>line. trim line \<noteq> []) (split_lf content))
     \<and> JSON_parse E line' = Inl m'"
proof -
  let ?ls = "filter (\<lambda>line. trim line \<noteq> []) (split_lf content)"
  show ?thesis
  proof (cases "sequence_results (map (JSON_parse E) ?ls)")
    case (Inl m')
    from sequence_results_Inl [OF Inl] obtain line' where
      "line' \<in> set ?ls" "JSON_parse E line' = Inl m'" by auto
    with Inl show ?thesis by (auto simp: parse_log_def)
  next
    case (Inr vs)
    then have "map (JSON_parse E) ?ls = map Inr vs" by (simp add: sequence_results_Inr)
    with assms have "Inl m \<in> set (map Inr vs)" by (metis image_eqI set_map)
    then show ?thesis by auto
  qed
qed

text \<open>
  C9. Listing a log that does not exist answers 200 with no entries. When the log
  exists, its blank lines are dropped; if every other line parses, the answer is 200
  with the parsed lines, last line first; if one of them does not parse, the answer is
  500 with the message of a line that failed, and no entry is returned. The three
  listing handlers are \<open>list_log\<close> at their path.
\<close>

theorem listing_all_or_nothing:
  "(files w logPath = None \<longrightarrow>
      list_log E logPath key failure w = \<lparr>status = 200, body = JObject [(key, JArray [])]\<rparr>) \<and>
   (\<forall>content. files w logPath = Some content \<longrightarrow>
      ((\<forall>line \<in> set (filter (\<lambda>line. trim line \<noteq> []) (split_lf content)).
          \<exists>v. JSON_parse E line = Inr v) \<longrightarrow>
       list_log E logPath key failure w =
         \<lparr>status = 200, body = JObject [(key, JArray
            (rev (map (\<lambda>line. projr (JSON_parse E line))
                    (filter (\<lambda>line. trim line \<noteq> []) (split_lf content)))))]\<rparr>) \<and>
      ((\<exists>line \<in> set (filter (\<lambda>line. trim line \<noteq> []) (split_lf content)).
          \<exists>m. JSON_parse E line = Inl m) \<longrightarrow>
       (\<exists>m line. line \<in> set (filter (\<lambda>line. trim line \<noteq> []) (split_lf content))
          \<and> JSON_parse E line = Inl m
          \<and> list_log E logPath key failure w =
              \<lparr>status = 500, body = JObject
                 [(''error'', JString failure), (''details'', JString m)]\<rparr>)))"
proof (cases "files w logPath")
  case None
  then show ?thesis by (simp add: list_log_def existsSync_def)
next
  case (Some content)
  let ?ls = "filter (\<lambda>line. trim line \<noteq> []) (split_lf content)"
  have ok: "(\<forall>line \<in> set ?ls. \<exists>v. JSON_parse E line = Inr v) \<longrightarrow>
       list_log E logPath key failure w =
         \<lparr>status = 200, body = JObject [(key, JArray
            (rev (map (\<lambda>line. projr (JSON_parse E line)) ?ls)))]\<rparr>"
    using Some by (auto simp: list_log_def existsSync_def readFile_def parse_log_ok)
  have bad: "(\<exists>line \<in> set ?ls. \<exists>m. JSON_parse E line = Inl m) \<longrightarrow>
       (\<exists>m line. line \<in> set ?ls \<and> JSON_parse E line = Inl m
          \<and> list_log E logPath key failure w =
              \<lparr>status = 500, body = JObject
                 [(''error'', JString failure), (''details'', JString m)]\<rparr>)"
  proof
    assume "\<exists>line \<in> set ?ls. \<exists>m. JSON_parse E line = Inl m"
    then obtain line m where "line \<in> set ?ls" "JSON_parse E line = Inl m" by blast
    from parse_log_fails [OF this] obtain m' line' where
      "parse_log E content = Inl m'" "line' \<in> set ?ls" "JSON_parse E line' = Inl m'" by blast
    with Some show "\<exists>m line. line \<in> set ?ls \<and> JSON_parse E line = Inl m
          \<and> list_log E logPath key failure w =
              \<lparr>status = 500, body = JObject
                 [(''error'', JString failure), (''details'', JString m)]\<rparr>"
      by (auto simp: list_log_def existsSync_def readFile_def)
  qed
  from Some ok bad show ?thesis by simp
qed

text \<open>
  The theorem at the generation log: absent, with two entries and blank lines between
  them, and with a line that does not parse.
\<close>

theorem listing_all_or_nothing_witness:
  \<open>get_images node18 \<lparr>files = Map.empty, api_calls = []\<rparr>
     = \<lparr>status = 200, body = JObject [(''images'', JArray [])]\<rparr> \<and>
   get_images node18
     \<lparr>files = [imageLogPath \<mapsto> ''{"prompt":"a"}'' @ [LF, LF] @ ''  '' @ [LF] @ ''{"prompt":"b"}'' @ [LF]],
      api_calls = []\<rparr>
     = \<lparr>status = 200, body = JObject [(''images'', JArray
          [JObject [(''prompt'', JString ''b'')], JObject [(''prompt'', JString ''a'')]])]\<rparr> \<and>
   get_images node18
     \<lparr>files = [imageLogPath \<mapsto> ''{"prompt":"a"}'' @ [LF] @ ''{"prompt":'' @ [LF]],
      api_calls = []\<rparr>
     = \<lparr>status = 500, body = JObject
          [(''error'', JString ''Failed to fetch images''),
           (''details'', JString ''Unexpected end of JSON input'')]\<rparr>\<close>
proof -
  let ?w0 = "\<lparr>files = Map.empty, api_calls = []\<rparr>"
  let ?c1 = \<open>''{"prompt":"a"}'' @ [LF, LF] @ ''  '' @ [LF] @ ''{"prompt":"b"}'' @ [LF]\<close>
  let ?w1 = "\<lparr>files = [imageLogPath \<mapsto> ?c1], api_calls = []\<rparr>"
  let ?c2 = \<open>''{"prompt":"a"}'' @ [LF] @ ''{"prompt":'' @ [LF]\<close>
  let ?w2 = "\<lparr>files = [imageLogPath \<mapsto> ?c2], api_calls = []\<rparr>"
  let ?keep = "\<lambda>line. trim line \<noteq> []"
  have r0: "get_images node18 ?w0 = \<lparr>status = 200, body = JObject [(''images'', JArray [])]\<rparr>"
    using listing_all_or_nothing [of ?w0 imageLogPath node18 "''images''" "''Failed to fetch images''"]
    by (simp add: get_images_def)
  have f1: \<open>filter ?keep (split_lf ?c1) = [''{"prompt":"a"}'', ''{"prompt":"b"}'']\<close>
    by code_simp
  have pa: \<open>JSON_parse node18 ''{"prompt":"a"}'' = Inr (JObject [(''prompt'', JString ''a'')])\<close>
    by code_simp
  have pb: \<open>JSON_parse node18 ''{"prompt":"b"}'' = Inr (JObject [(''prompt'', JString ''b'')])\<close>
    by code_simp
  have all1: "\<forall>line \<in> set (filter ?keep (split_lf ?c1)). \<exists>v. JSON_parse node18 line = Inr v"
    unfolding f1 using pa pb by simp
  have vals1: "rev (map (\<lambda>line. projr (JSON_parse node18 line)) (filter ?keep (split_lf ?c1)))
     = [JObject [(''prompt'', JString ''b'')], JObject [(''prompt'', JString ''a'')]]"
    unfolding f1 using pa pb by simp
  have s1: "files ?w1 imageLogPath = Some ?c1" by simp
  from listing_all_or_nothing [of ?w1 imageLogPath node18 "''images''" "''Failed to fetch images''"]
    s1 all1
  have "list_log node18 imageLogPath ''images'' ''Failed to fetch images'' ?w1 =
         \<lparr>status = 200, body = JObject [(''images'', JArray
            (rev (map (\<lambda>line. projr (JSON_parse node18 line)) (filter ?keep (split_lf ?c1)))))]\<rparr>"
    by blast
  then have r1: "get_images node18 ?w1 = \<lparr>status = 200, body = JObject [(''images'', JArray
          [JObject [(''prompt'', JString ''b'')], JObject [(''prompt'', JString ''a'')]])]\<rparr>"
    unfolding vals1 by (simp add: get_images_def)
  have f2: \<open>filter ?keep (split_lf ?c2) = [''{"prompt":"a"}'', ''{"prompt":'']\<close>
    by code_simp
  have pc: \<open>JSON_parse node18 ''{"prompt":'' = Inl ''Unexpected end of JSON input''\<close>
    by code_simp
  have ex2: "\<exists>line \<in> set (filter ?keep (split_lf ?c2)). \<exists>m. JSON_parse node18 line = Inl m"
    unfolding f2 using pc by simp
  have s2: "files ?w2 imageLogPath = Some ?c2" by simp
  from listing_all_or_nothing [of ?w2 imageLogPath node18 "''images''" "''Failed to fetch images''"]
    s2 ex2
  obtain m line where ml: "line \<in> set (filter ?keep (split_lf ?c2))"
      "JSON_parse node18 line = Inl m"
      "list_log node18 imageLogPath ''images'' ''Failed to fetch images'' ?w2 =
         \<lparr>status = 500, body = JObject
            [(''error'', JString ''Failed to fetch images''), (''details'', JString m)]\<rparr>"
    by blast
  from ml(1,2) pa pc have "m = ''Unexpected end of JSON input''"
    unfolding f2 by auto
  with ml(3) have r2: "get_images node18 ?w2 = \<lparr>status = 500, body = JObject
          [(''error'', JString ''Failed to fetch images''),
           (''details'', JString ''Unexpected end of JSON input'')]\<rparr>"
    by (simp add: get_images_def)
  from r0 r1 r2 show ?thesis by blast
qed

subsection \<open>Appending and listing\<close>

lemma split_lf_line:
  "LF \<notin> set s \<Longrightarrow> split_lf (s @ LF # rest) = s # split_lf rest"
  by (induction s) auto

lemma split_lf_lines:
  "\<forall>s \<in> set ss. LF \<notin> set s \<Longrightarrow>
   split_lf (concat (map (\<lambda>s. s @ [LF]) ss)) = ss @ [[]]"
  by (induction ss) (simp_all add: split_lf_line)

lemma files_append_entry:
  "files (append_entry E p e w) p =
     Some ((case files w p of None \<Rightarrow> [] | Some old \<Rightarrow> old) @ JSON_stringify E e @ [LF])"
  by (simp add: append_entry_def appendFileSync_def split: option.splits)

lemma files_append_all:
  "files (append_all E p es w) p =
     (if es = [] then files w p
      else Some ((case files w p of None \<Rightarrow> [] | Some old \<Rightarrow> old)
                 @ concat (map (\<lambda>e. JSON_stringify E e @ [LF]) es)))"
proof (induction es arbitrary: w)
  case Nil
  then show ?case by (simp add: append_all_def)
next
  case (Cons e es)
  have "append_all E p (e # es) w = append_all E p es (append_entry E p e w)"
    by (simp add: append_all_def)
  with Cons.IH [of "append_entry E p e w"] show ?case
    by (simp add: files_append_entry)
qed

lemma trim_empty: "trim [] = []"
  by (simp add: trim_def)

text \<open>
  C5. Starting from a log that is absent or empty, after the entries \<open>es\<close> were appended
  one after the other, listing answers 200 with exactly these entries, the last one
  first. The entries are values that \<^verbatim>\<open>JSON.stringify\<close> writes on one line that is not
  blank and that \<^verbatim>\<open>JSON.parse\<close> reads back, as holds of what the handlers log.
\<close>

theorem append_then_list_reverses:
  assumes "files w logPath = None \<or> files w logPath = Some []"
    and "\<forall>e \<in> set es. JSON_parse E (JSON_stringify E e) = Inr e
           \<and> LF \<notin> set (JSON_stringify E e) \<and> trim (JSON_stringify E e) \<noteq> []"
  shows "list_log E logPath key failure (append_all E logPath es w) =
     \<lparr>status = 200, body = JObject [(key, JArray (rev es))]\<rparr>"
proof (cases "es = []")
  case True
  with assms(1) show ?thesis
    by (auto simp: append_all_def list_log_def existsSync_def readFile_def parse_log_def trim_empty)
next
  case False
  let ?ss = "map (JSON_stringify E) es"
  let ?content = "concat (map (\<lambda>s. s @ [LF]) ?ss)"
  from False assms(1) have f: "files (append_all E logPath es w) logPath = Some ?content"
    by (auto simp: files_append_all comp_def)
  from assms(2) have "\<forall>s \<in> set ?ss. LF \<notin> set s" by auto
  then have sp: "split_lf ?content = ?ss @ [[]]" by (rule split_lf_lines)
  from assms(2) have keep: "filter (\<lambda>line. trim line \<noteq> []) (?ss @ [[]]) = ?ss"
    by (auto simp: trim_empty filter_id_conv)
  from assms(2) have "map (JSON_parse E) ?ss = map Inr es" by simp
  then have "sequence_results (map (JSON_parse E) ?ss) = Inr es"
    by (simp add: sequence_results_Inr)
  with sp keep have "parse_log E ?content = Inr (rev es)"
    by (simp add: parse_log_def)
  with f show ?thesis
    by (simp add: list_log_def existsSync_def readFile_def)
qed

text \<open>The theorem at three entries appended to an absent log.\<close>

theorem append_then_list_reverses_witness:
  \<open>get_images node18
     (append_all node18 imageLogPath
        [JObject [(''timestamp'', JString ''2024-05-01T10:00:00.000Z''), (''prompt'', JString ''a cat''),
                  (''created'', JNumber (Fin 171 0)),
                  (''data'', JArray [JObject [(''url'', JString ''https://example.com/1.png'')]])],
         JObject [(''timestamp'', JString ''2024-05-01T10:05:00.000Z''),
                  (''prompt'', JString (''a "big" dog'' @ [LF] @ ''on a hill'')),
                  (''data'', JArray [])],
         JObject [(''timestamp'', JString ''2024-05-01T10:09:00.000Z''), (''prompt'', JNull)]]
        \<lparr>files = Map.empty, api_calls = []\<rparr>)
   = \<lparr>status = 200, body = JObject [(''images'', JArray
        [JObject [(''timestamp'', JString ''2024-05-01T10:09:00.000Z''), (''prompt'', JNull)],
         JObject [(''timestamp'', JString ''2024-05-01T10:05:00.000Z''),
                  (''prompt'', JString (''a "big" dog'' @ [LF] @ ''on a hill'')),
                  (''data'', JArray [])],
         JObject [(''timestamp'', JString ''2024-05-01T10:00:00.000Z''), (''prompt'', JString ''a cat''),
                  (''created'', JNumber (Fin 171 0)),
                  (''data'', JArray [JObject [(''url'', JString ''https://example.com/1.png'')]])]])]\<rparr>\<close>
proof -
  let ?E1 = "JObject [(''timestamp'', JString ''2024-05-01T10:00:00.000Z''), (''prompt'', JString ''a cat''),
                  (''created'', JNumber (Fin 171 0)),
                  (''data'', JArray [JObject [(''url'', JString ''https://example.com/1.png'')]])]"
  let ?E2 = \<open>JObject [(''timestamp'', JString ''2024-05-01T10:05:00.000Z''),
                  (''prompt'', JString (''a "big" dog'' @ [LF] @ ''on a hill'')),
                  (''data'', JArray [])]\<close>
  let ?E3 = "JObject [(''timestamp'', JString ''2024-05-01T10:09:00.000Z''), (''prompt'', JNull)]"
  let ?ok = "\<lambda>e. JSON_parse node18 (JSON_stringify node18 e) = Inr e
           \<and> LF \<notin> set (JSON_stringify node18 e) \<and> trim (JSON_stringify node18 e) \<noteq> []"
  have e1: "?ok ?E1" by code_simp
  have e2: "?ok ?E2" by code_simp
  have e3: "?ok ?E3" by code_simp
  from e1 e2 e3 have all: "\<forall>e \<in> set [?E1, ?E2, ?E3]. ?ok e" by simp
  have start: "files \<lparr>files = Map.empty, api_calls = []\<rparr> imageLogPath = None
     \<or> files \<lparr>files = Map.empty, api_calls = []\<rparr> imageLogPath = Some []"
    by simp
  from append_then_list_reverses [OF start all, of "''images''" "''Failed to fetch images''"]
  show ?thesis by (simp add: get_images_def)
qed

text \<open>A successful generation appends one entry and returns the upstream response.\<close>

lemma generate_image_appends:
  assumes "truthy (g_prompt req)" and "openai (ImagesGenerate args) = Inr res"
    and "args = defined_props
                [(''model'', or_default (g_model req) (JString ''dall-e-3'')),
                 (''prompt'', g_prompt req),
                 (''n'', or_default (g_n req) (JNumber (Fin 1 0))),
                 (''size'', or_default (g_size req) (JString ''1024x1024'')),
                 (''quality'', or_default (g_quality req) (JString ''standard'')),
                 (''response_format'', Some (JString ''url''))]"
  shows "generate_image_handler E openai now req w =
    (append_entry E imageLogPath
       (JObject (defined_props
          (spread [(''timestamp'', Some (JString now)), (''prompt'', g_prompt req)]
             (map (\<lambda>(k, v). (k, Some v)) res))))
       (w\<lparr>api_calls := api_calls w @ [ImagesGenerate args]\<rparr>),
     \<lparr>status = 200, body = JObject res\<rparr>)"
  using assms by (simp add: generate_image_handler_def call_upstream_def)

end
